theory Spec2Isabelle
  imports
    Complex_Main
    "HOL-Library.Multiset"
    "HOL-Library.Char_ord"
    "HOL-Library.List_Lexorder"
begin

section \<open>JavaScript numbers\<close>

text \<open>
  The ledger of \<^verbatim>\<open>src/App.tsx\<close> computes with JavaScript numbers. A number is a finite
  value, one of the two infinities, or NaN. Finite values are carried as reals: an
  arithmetic result whose magnitude reaches \<open>2^1024 - 2^970\<close> (the point from which
  round-to-nearest gives an infinity) overflows to the infinity of its sign, as in
  IEEE 754 binary64; the rounding of an in-range result to the nearest double is not
  modelled, and the two zeros are identified (as \<^verbatim>\<open>===\<close> does). A value \<open>Fin r\<close>
  is a number of the program when \<open>r\<close> is inside the range (\<open>finiteDouble\<close>); the
  operations below return such values from such values.
\<close>

datatype number = Fin real | PosInf | NegInf | NaN

definition DBL_LIMIT :: real where
  "DBL_LIMIT = 2 ^ 1024 - 2 ^ 970"

definition overflow :: "real \<Rightarrow> number" where
  "overflow r =
     (if DBL_LIMIT \<le> r then PosInf
      else if r \<le> - DBL_LIMIT then NegInf
      else Fin r)"

text \<open>A finite number inside the range of the doubles.\<close>

definition finiteDouble :: "number \<Rightarrow> bool" where
  "finiteDouble n = (case n of Fin r \<Rightarrow> \<bar>r\<bar> < DBL_LIMIT | _ \<Rightarrow> False)"

text \<open>\<^verbatim>\<open>a + b\<close>\<close>

fun num_add :: "number \<Rightarrow> number \<Rightarrow> number" where
  "num_add NaN b = NaN"
| "num_add a NaN = NaN"
| "num_add PosInf NegInf = NaN"
| "num_add NegInf PosInf = NaN"
| "num_add PosInf b = PosInf"
| "num_add a PosInf = PosInf"
| "num_add NegInf b = NegInf"
| "num_add a NegInf = NegInf"
| "num_add (Fin a) (Fin b) = overflow (a + b)"

text \<open>\<^verbatim>\<open>-a\<close> and \<^verbatim>\<open>a - b\<close>\<close>

fun num_neg :: "number \<Rightarrow> number" where
  "num_neg (Fin a) = Fin (- a)"
| "num_neg PosInf = NegInf"
| "num_neg NegInf = PosInf"
| "num_neg NaN = NaN"

definition num_sub :: "number \<Rightarrow> number \<Rightarrow> number" where
  "num_sub a b = num_add a (num_neg b)"

text \<open>\<^verbatim>\<open>a > b\<close> and \<^verbatim>\<open>a < b\<close>: false as soon as an operand is NaN.\<close>

fun num_less :: "number \<Rightarrow> number \<Rightarrow> bool" where
  "num_less NaN b = False"
| "num_less a NaN = False"
| "num_less PosInf b = False"
| "num_less a PosInf = True"
| "num_less a NegInf = False"
| "num_less NegInf b = True"
| "num_less (Fin a) (Fin b) = (a < b)"

definition num_greater :: "number \<Rightarrow> number \<Rightarrow> bool" where
  "num_greater a b = num_less b a"

text \<open>\<^verbatim>\<open>Number.isFinite(n)\<close>\<close>

fun isFinite :: "number \<Rightarrow> bool" where
  "isFinite (Fin a) = True"
| "isFinite a = False"

text \<open>\<^verbatim>\<open>Math.abs(v)\<close>\<close>

fun Math_abs :: "number \<Rightarrow> number" where
  "Math_abs (Fin a) = Fin \<bar>a\<bar>"
| "Math_abs PosInf = PosInf"
| "Math_abs NegInf = PosInf"
| "Math_abs NaN = NaN"

text \<open>
  \<^verbatim>\<open>n || 0\<close> on a number: the falsy numbers are zero and NaN, and they give \<open>0\<close>;
  every other number, the infinities included, is returned as it is.
\<close>

definition or_zero :: "number \<Rightarrow> number" where
  "or_zero n = (if n = NaN \<or> n = Fin 0 then Fin 0 else n)"

text \<open>\<^verbatim>\<open>Math.max(...)\<close>: \<open>-Infinity\<close> without arguments, NaN as soon as one argument is.\<close>

fun num_max :: "number \<Rightarrow> number \<Rightarrow> number" where
  "num_max NaN b = NaN"
| "num_max a NaN = NaN"
| "num_max a b = (if num_less a b then b else a)"

definition Math_max :: "number list \<Rightarrow> number" where
  "Math_max xs = foldl num_max NegInf xs"

section \<open>Strings to numbers\<close>

text \<open>
  \<^verbatim>\<open>Number(s)\<close> on a string, after ECMAScript's StringToNumber: white space is trimmed,
  the empty string is \<open>0\<close>, a numeric literal (decimal with optional sign, fraction and
  exponent; \<^verbatim>\<open>Infinity\<close>; unsigned binary, octal or hexadecimal integer) is its value,
  and everything else is NaN. Strings are sequences of code units below 256.
\<close>

definition isWhiteSpace :: "char \<Rightarrow> bool" where
  "isWhiteSpace c =
     (c = CHR 0x09 \<or> c = CHR 0x0A \<or> c = CHR 0x0B \<or> c = CHR 0x0C \<or> c = CHR 0x0D \<or>
      c = CHR 0x20 \<or> c = CHR 0xA0)"

text \<open>\<^verbatim>\<open>s.trim()\<close>\<close>

definition trimString :: "string \<Rightarrow> string" where
  "trimString s = rev (dropWhile isWhiteSpace (rev (dropWhile isWhiteSpace s)))"

definition digitValue :: "char \<Rightarrow> nat option" where
  "digitValue c =
     (let n = (of_char c :: nat) in
      if 48 \<le> n \<and> n \<le> 57 then Some (n - 48)
      else if 97 \<le> n \<and> n \<le> 102 then Some (n - 87)
      else if 65 \<le> n \<and> n \<le> 70 then Some (n - 55)
      else None)"

fun digitsIn :: "nat \<Rightarrow> string \<Rightarrow> nat \<Rightarrow> nat option" where
  "digitsIn base [] acc = Some acc"
| "digitsIn base (c # cs) acc =
     (case digitValue c of
        None \<Rightarrow> None
      | Some d \<Rightarrow> if d < base then digitsIn base cs (base * acc + d) else None)"

definition parseDigits :: "nat \<Rightarrow> string \<Rightarrow> nat option" where
  "parseDigits base ds = (if ds = [] then None else digitsIn base ds 0)"

definition scale10 :: "nat \<Rightarrow> int \<Rightarrow> real" where
  "scale10 n k = (if 0 \<le> k then real n * 10 ^ nat k else real n / 10 ^ nat (- k))"

text \<open>The digits around the point: their value and the number of fraction digits.\<close>

definition parseMantissa :: "string \<Rightarrow> (nat \<times> nat) option" where
  "parseMantissa m =
     (let ip = takeWhile (\<lambda>c. c \<noteq> CHR ''.'') m;
          rest = dropWhile (\<lambda>c. c \<noteq> CHR ''.'') m
      in if rest = [] then map_option (\<lambda>n. (n, 0)) (parseDigits 10 ip)
         else let fp = tl rest
              in if ip = [] \<and> fp = [] then None
                 else map_option (\<lambda>n. (n, length fp)) (digitsIn 10 (ip @ fp) 0))"

text \<open>The signed integer behind the exponent indicator.\<close>

definition parseExponent :: "string \<Rightarrow> int option" where
  "parseExponent s =
     (case s of
        c # ds \<Rightarrow>
          if c = CHR ''+'' then map_option int (parseDigits 10 ds)
          else if c = CHR ''-'' then map_option (\<lambda>n. - int n) (parseDigits 10 ds)
          else map_option int (parseDigits 10 s)
      | [] \<Rightarrow> None)"

definition StrUnsignedDecimalLiteral :: "string \<Rightarrow> number" where
  "StrUnsignedDecimalLiteral u =
     (if u = ''Infinity'' then PosInf
      else
        let m = takeWhile (\<lambda>c. c \<noteq> CHR ''e'' \<and> c \<noteq> CHR ''E'') u;
            rest = dropWhile (\<lambda>c. c \<noteq> CHR ''e'' \<and> c \<noteq> CHR ''E'') u
        in case parseMantissa m of
             None \<Rightarrow> NaN
           | Some (n, k) \<Rightarrow>
               if rest = [] then overflow (scale10 n (- int k))
               else (case parseExponent (tl rest) of
                       None \<Rightarrow> NaN
                     | Some e \<Rightarrow> overflow (scale10 n (e - int k))))"

definition radixOf :: "char \<Rightarrow> nat option" where
  "radixOf c =
     (if c = CHR ''x'' \<or> c = CHR ''X'' then Some 16
      else if c = CHR ''o'' \<or> c = CHR ''O'' then Some 8
      else if c = CHR ''b'' \<or> c = CHR ''B'' then Some 2
      else None)"

definition StrDecimalLiteral :: "string \<Rightarrow> number" where
  "StrDecimalLiteral s =
     (case s of
        c # u \<Rightarrow>
          if c = CHR ''+'' then StrUnsignedDecimalLiteral u
          else if c = CHR ''-'' then num_neg (StrUnsignedDecimalLiteral u)
          else StrUnsignedDecimalLiteral s
      | [] \<Rightarrow> NaN)"

definition StringToNumber :: "string \<Rightarrow> number" where
  "StringToNumber str =
     (let s = trimString str
      in if s = [] then Fin 0
         else (case s of
                 c # r # ds \<Rightarrow>
                   (case (if c = CHR ''0'' then radixOf r else None) of
                      Some base \<Rightarrow>
                        (case parseDigits base ds of
                           None \<Rightarrow> NaN
                         | Some n \<Rightarrow> overflow (real n))
                    | None \<Rightarrow> StrDecimalLiteral s)
               | _ \<Rightarrow> StrDecimalLiteral s))"

section \<open>Data model\<close>

datatype TxType = Income | Expenses | Savings | Investments

text \<open>The runtime string of a kind, which template literals and truthiness tests see.\<close>

fun TxType_string :: "TxType \<Rightarrow> string" where
  "TxType_string Income = ''Income''"
| "TxType_string Expenses = ''Expenses''"
| "TxType_string Savings = ''Savings''"
| "TxType_string Investments = ''Investments''"

fun CATEGORIES :: "TxType \<Rightarrow> string list" where
  "CATEGORIES Income = [''Salary'', ''Scholarship'', ''Family Support'', ''Side hustle'']"
| "CATEGORIES Expenses =
     [''Rent'', ''Transport'', ''Groceries'', ''Phone & Internet'', ''Subscriptions'',
      ''School & Books'', ''Health'', ''Leisure'']"
| "CATEGORIES Savings = [''Emergency Fund'', ''Travel'', ''Other Savings'']"
| "CATEGORIES Investments = [''Crypto'', ''Stocks'', ''Other Investment'']"

text \<open>\<^verbatim>\<open>Object.keys(CATEGORIES)\<close>: the kinds in declaration order.\<close>

definition TxTypes :: "TxType list" where
  "TxTypes = [Income, Expenses, Savings, Investments]"

text \<open>
  \<^verbatim>\<open>type Transaction = { id; date; type; category; amount; details? }\<close>.
  An absent \<^verbatim>\<open>details\<close> and one that is \<^verbatim>\<open>undefined\<close> are both \<open>None\<close>.
\<close>

record Transaction =
  tx_id :: string
  tx_date :: string
  tx_type :: TxType
  tx_category :: string
  tx_amount :: number
  tx_details :: "string option"

text \<open>\<^verbatim>\<open>dateStr.slice(0, 7)\<close>\<close>

definition monthKeyFromDate :: "string \<Rightarrow> string" where
  "monthKeyFromDate dateStr = take 7 dateStr"

text \<open>\<^verbatim>\<open>type BudgetStore = Record<string, number>\<close>\<close>

type_synonym BudgetStore = "string \<rightharpoonup> number"

text \<open>The key \<^verbatim>\<open>`${monthKey}|${t}|${cat}`\<close>\<close>

definition budgetKey :: "string \<Rightarrow> TxType \<Rightarrow> string \<Rightarrow> string" where
  "budgetKey monthKey t cat = monthKey @ ''|'' @ TxType_string t @ ''|'' @ cat"

section \<open>Aggregator\<close>

text \<open>
  \<^verbatim>\<open>transactions.filter((t) => t.type === type)
       .reduce((acc, t) => acc + (Number(t.amount) || 0), 0)\<close>;
  \<^verbatim>\<open>Number\<close> is the identity on a number.
\<close>

definition sumByType :: "Transaction list \<Rightarrow> TxType \<Rightarrow> number" where
  "sumByType transactions type =
     foldl (\<lambda>acc t. num_add acc (or_zero (tx_amount t))) (Fin 0)
       (filter (\<lambda>t. tx_type t = type) transactions)"

definition sumForMonthTypeCategory ::
  "Transaction list \<Rightarrow> string \<Rightarrow> TxType \<Rightarrow> string \<Rightarrow> number" where
  "sumForMonthTypeCategory transactions monthKey type category =
     foldl (\<lambda>acc t. num_add acc (or_zero (tx_amount t))) (Fin 0)
       (filter (\<lambda>t. monthKeyFromDate (tx_date t) = monthKey \<and>
                     tx_type t = type \<and> tx_category t = category) transactions)"

text \<open>\<^verbatim>\<open>budgets[key] ?? 0\<close>\<close>

definition getBudget :: "BudgetStore \<Rightarrow> string \<Rightarrow> TxType \<Rightarrow> string \<Rightarrow> number" where
  "getBudget budgets monthKey t cat =
     (case budgets (budgetKey monthKey t cat) of None \<Rightarrow> Fin 0 | Some v \<Rightarrow> v)"

text \<open>\<^verbatim>\<open>setBudgets((prev) => ({ ...prev, [key]: Number.isFinite(value) ? value : 0 }))\<close>\<close>

definition setBudget :: "BudgetStore \<Rightarrow> string \<Rightarrow> TxType \<Rightarrow> string \<Rightarrow> number \<Rightarrow> BudgetStore" where
  "setBudget prev monthKey t cat v =
     prev(budgetKey monthKey t cat \<mapsto> (if isFinite v then v else Fin 0))"

definition monthBudgetTotal :: "BudgetStore \<Rightarrow> string \<Rightarrow> TxType \<Rightarrow> number" where
  "monthBudgetTotal budgets monthKey t =
     foldl (\<lambda>acc cat. num_add acc (getBudget budgets monthKey t cat)) (Fin 0) (CATEGORIES t)"

definition monthTrackedTotal :: "Transaction list \<Rightarrow> string \<Rightarrow> TxType \<Rightarrow> number" where
  "monthTrackedTotal transactions monthKey t =
     foldl (\<lambda>acc cat. num_add acc (sumForMonthTypeCategory transactions monthKey t cat))
       (Fin 0) (CATEGORIES t)"

section \<open>Reconciler\<close>

text \<open>
  The header of one kind on the Plan tab:
  \<^verbatim>\<open>budgetTotal = monthBudgetTotal(selectedMonth, t)\<close>,
  \<^verbatim>\<open>trackedTotal = monthTrackedTotal(selectedMonth, t)\<close>,
  \<^verbatim>\<open>variance = budgetTotal - trackedTotal\<close>.
\<close>

record PlanRow =
  kind :: TxType
  budgetTotal :: number
  trackedTotal :: number
  variance :: number

definition planRow :: "BudgetStore \<Rightarrow> Transaction list \<Rightarrow> string \<Rightarrow> TxType \<Rightarrow> PlanRow" where
  "planRow budgets transactions selectedMonth t =
     (let b = monthBudgetTotal budgets selectedMonth t;
          tr = monthTrackedTotal transactions selectedMonth t
      in \<lparr>kind = t, budgetTotal = b, trackedTotal = tr, variance = num_sub b tr\<rparr>)"

definition planRows :: "BudgetStore \<Rightarrow> Transaction list \<Rightarrow> string \<Rightarrow> PlanRow list" where
  "planRows budgets transactions selectedMonth =
     map (planRow budgets transactions selectedMonth) TxTypes"

text \<open>
  \<^verbatim>\<open>for (const t of transactions) set.add(monthKeyFromDate(t.date));
  return Array.from(set).sort();\<close>
  The default sort orders strings by their code units, the order of \<^typ>\<open>string\<close> here.
\<close>

definition allMonthsInTx :: "Transaction list \<Rightarrow> string list" where
  "allMonthsInTx transactions =
     sort (remdups (map (\<lambda>t. monthKeyFromDate (tx_date t)) transactions))"

record MonthRow =
  month :: string
  income :: number
  expenses :: number
  savings :: number
  investments :: number
  net :: number

definition monthRow :: "Transaction list \<Rightarrow> string \<Rightarrow> MonthRow" where
  "monthRow transactions m =
     (let i = monthTrackedTotal transactions m Income;
          e = monthTrackedTotal transactions m Expenses;
          s = monthTrackedTotal transactions m Savings;
          v = monthTrackedTotal transactions m Investments
      in \<lparr>month = m, income = i, expenses = e, savings = s, investments = v,
          net = num_sub (num_sub (num_sub i e) s) v\<rparr>)"

definition monthTotals :: "Transaction list \<Rightarrow> MonthRow list" where
  "monthTotals transactions = map (monthRow transactions) (allMonthsInTx transactions)"

text \<open>\<^verbatim>\<open>monthTotals.find((x) => x.month === selectedMonth) ?? { month: selectedMonth, ... 0 }\<close>\<close>

definition selectedMonthStats :: "Transaction list \<Rightarrow> string \<Rightarrow> MonthRow" where
  "selectedMonthStats transactions selectedMonth =
     (case find (\<lambda>x. month x = selectedMonth) (monthTotals transactions) of
        Some found \<Rightarrow> found
      | None \<Rightarrow> \<lparr>month = selectedMonth, income = Fin 0, expenses = Fin 0, savings = Fin 0,
                  investments = Fin 0, net = Fin 0\<rparr>)"

text \<open>
  \<^verbatim>\<open>Array.prototype.sort(cmp)\<close> is stable: \<open>x\<close> moves behind \<open>y\<close> only when
  \<open>cmp x y > 0\<close> (a NaN from the comparator counts as \<open>0\<close>). It is written as the
  stable insertion sort; on a comparator that is a consistent ordering every stable sort
  returns the same array.
\<close>

fun insert_cmp :: "('a \<Rightarrow> 'a \<Rightarrow> number) \<Rightarrow> 'a \<Rightarrow> 'a list \<Rightarrow> 'a list" where
  "insert_cmp cmp x [] = [x]"
| "insert_cmp cmp x (y # ys) =
     (if num_greater (cmp x y) (Fin 0) then y # insert_cmp cmp x ys else x # y # ys)"

definition Array_sort :: "('a \<Rightarrow> 'a \<Rightarrow> number) \<Rightarrow> 'a list \<Rightarrow> 'a list" where
  "Array_sort cmp xs = foldr (insert_cmp cmp) xs []"

text \<open>A row \<^verbatim>\<open>{ category, total }\<close> of the ranking.\<close>

record CategoryRow =
  row_category :: string
  row_total :: number

text \<open>
  \<^verbatim>\<open>CATEGORIES.Expenses
      .map((c) => ({ category: c, total: sumForMonthTypeCategory(transactions, m, "Expenses", c) }))
      .filter((r) => r.total > 0)
      .sort((a, b) => b.total - a.total)
      .slice(0, 5)\<close>
\<close>

definition topExpenses :: "Transaction list \<Rightarrow> string \<Rightarrow> CategoryRow list" where
  "topExpenses transactions selectedMonth =
     take 5
       (Array_sort (\<lambda>a b. num_sub (row_total b) (row_total a))
         (filter (\<lambda>r. num_greater (row_total r) (Fin 0))
           (map (\<lambda>c. \<lparr>row_category = c,
                       row_total = sumForMonthTypeCategory transactions selectedMonth Expenses c\<rparr>)
             (CATEGORIES Expenses))))"

section \<open>Chart data\<close>

text \<open>
  \<^verbatim>\<open>BarChart\<close>: \<^verbatim>\<open>const allValues = series.flat();
  const max = Math.max(1, ...allValues.map((v) => (Number.isFinite(v) ? v : 0)));\<close>
\<close>

definition BarChart_max :: "number list list \<Rightarrow> number" where
  "BarChart_max series =
     Math_max (Fin 1 # map (\<lambda>v. if isFinite v then v else Fin 0) (concat series))"

text \<open>\<^verbatim>\<open>LineChart\<close>: \<^verbatim>\<open>const max = Math.max(1, ...values.map((v) => Math.abs(v)));\<close>\<close>

definition LineChart_max :: "number list \<Rightarrow> number" where
  "LineChart_max values = Math_max (Fin 1 # map Math_abs values)"

section \<open>Entry creation\<close>

text \<open>
  The state that \<^verbatim>\<open>addTransaction\<close> reads and writes: the collection and the
  fields of the form.
\<close>

record AppState =
  transactions :: "Transaction list"
  date :: string
  type :: TxType
  category :: string
  amount :: string
  details :: string

text \<open>
  \<^verbatim>\<open>const n = Number(amount);
  if (!date || !type || !category || !Number.isFinite(n)) return;
  const tx = { id: ..., date, type, category, amount: n,
               details: details.trim() ? details.trim() : undefined };
  setTransactions((prev) => [tx, ...prev]); setAmount(""); setDetails("");\<close>
  The identifier comes from \<^verbatim>\<open>crypto.randomUUID\<close> or the clock: it is an argument here.
\<close>

definition addTransaction :: "string \<Rightarrow> AppState \<Rightarrow> AppState" where
  "addTransaction newId st =
     (let n = StringToNumber (amount st)
      in if date st = [] \<or> TxType_string (type st) = [] \<or> category st = [] \<or> \<not> isFinite n
         then st
         else
           let tx = \<lparr>tx_id = newId, tx_date = date st, tx_type = type st,
                     tx_category = category st, tx_amount = n,
                     tx_details = (if trimString (details st) \<noteq> []
                                   then Some (trimString (details st)) else None)\<rparr>
           in st\<lparr>transactions := tx # transactions st, amount := [], details := []\<rparr>)"

section \<open>Export and import\<close>

text \<open>
  Values as \<^verbatim>\<open>JSON.stringify\<close> reads them and \<^verbatim>\<open>JSON.parse\<close> builds them. An object is
  the list of its own properties in creation order (no key of an entry is an array
  index, which JavaScript would enumerate first).
\<close>

datatype jsvalue =
    JUndefined
  | JNull
  | JBoolean bool
  | JNumber number
  | JString string
  | JArray "jsvalue list"
  | JObject "(string \<times> jsvalue) list"

text \<open>
  The text of a file is its sequence of JSON tokens. White space (the indentation of
  \<^verbatim>\<open>JSON.stringify(data, null, 2)\<close>) is dropped, and the literal of a string or of a
  number is the token of its value: that such a literal reads back as the value it was
  written from is the language's, not this program's.
\<close>

datatype token =
    LBracket | RBracket | LBrace | RBrace | Colon | Comma
  | NullTok | TrueTok | FalseTok
  | NumberTok real
  | StringTok string

text \<open>Items separated by commas.\<close>

fun separate :: "token list list \<Rightarrow> token list" where
  "separate [] = []"
| "separate [x] = x"
| "separate (x # y # zs) = x @ Comma # separate (y # zs)"

text \<open>
  \<^verbatim>\<open>JSON.stringify\<close>, after ECMAScript's SerializeJSONProperty, SerializeJSONArray and
  SerializeJSONObject. \<^verbatim>\<open>undefined\<close> has no text: a property of that value is left out
  of its object, and an element of that value is written \<^verbatim>\<open>null\<close>. A number that is
  not finite is written \<^verbatim>\<open>null\<close>.
\<close>

fun SerializeJSONProperty :: "jsvalue \<Rightarrow> token list option"
  and SerializeJSONArray :: "jsvalue list \<Rightarrow> token list list"
  and SerializeJSONObject :: "(string \<times> jsvalue) list \<Rightarrow> token list list"
where
  "SerializeJSONProperty JUndefined = None"
| "SerializeJSONProperty JNull = Some [NullTok]"
| "SerializeJSONProperty (JBoolean b) = Some [if b then TrueTok else FalseTok]"
| "SerializeJSONProperty (JNumber n) =
     Some [case n of Fin r \<Rightarrow> NumberTok r | _ \<Rightarrow> NullTok]"
| "SerializeJSONProperty (JString s) = Some [StringTok s]"
| "SerializeJSONProperty (JArray vs) =
     Some (LBracket # separate (SerializeJSONArray vs) @ [RBracket])"
| "SerializeJSONProperty (JObject ms) =
     Some (LBrace # separate (SerializeJSONObject ms) @ [RBrace])"
| "SerializeJSONArray [] = []"
| "SerializeJSONArray (v # vs) =
     (case SerializeJSONProperty v of None \<Rightarrow> [NullTok] | Some ts \<Rightarrow> ts)
       # SerializeJSONArray vs"
| "SerializeJSONObject [] = []"
| "SerializeJSONObject ((k, v) # ms) =
     (case SerializeJSONProperty v of
        None \<Rightarrow> SerializeJSONObject ms
      | Some ts \<Rightarrow> (StringTok k # Colon # ts) # SerializeJSONObject ms)"

definition JSON_stringify :: "jsvalue \<Rightarrow> token list option" where
  "JSON_stringify v = SerializeJSONProperty v"

text \<open>A property read by \<^verbatim>\<open>JSON.parse\<close>: a repeated key overwrites the earlier value.\<close>

fun CreateDataProperty :: "(string \<times> jsvalue) list \<Rightarrow> string \<times> jsvalue \<Rightarrow> (string \<times> jsvalue) list" where
  "CreateDataProperty [] (k, v) = [(k, v)]"
| "CreateDataProperty ((k', v') # ms) (k, v) =
     (if k' = k then (k, v) # ms else (k', v') # CreateDataProperty ms (k, v))"

text \<open>
  \<^verbatim>\<open>JSON.parse\<close> by recursive descent; \<open>None\<close> is its SyntaxError. The first argument
  bounds the depth of the calls: every call but the first follows a token read, or a
  call that reads one, so twice the number of tokens plus one is never exhausted.
  A number literal beyond the range of the doubles reads as an infinity.
\<close>

fun parseValue :: "nat \<Rightarrow> token list \<Rightarrow> (jsvalue \<times> token list) option"
  and parseElements :: "nat \<Rightarrow> token list \<Rightarrow> (jsvalue list \<times> token list) option"
  and parseMembers :: "nat \<Rightarrow> token list \<Rightarrow> ((string \<times> jsvalue) list \<times> token list) option"
where
  "parseValue 0 ts = None"
| "parseValue (Suc n) [] = None"
| "parseValue (Suc n) (t # ts) =
     (case t of
        NullTok \<Rightarrow> Some (JNull, ts)
      | TrueTok \<Rightarrow> Some (JBoolean True, ts)
      | FalseTok \<Rightarrow> Some (JBoolean False, ts)
      | NumberTok r \<Rightarrow> Some (JNumber (overflow r), ts)
      | StringTok s \<Rightarrow> Some (JString s, ts)
      | LBracket \<Rightarrow>
          (case ts of
             RBracket # rest \<Rightarrow> Some (JArray [], rest)
           | _ \<Rightarrow> (case parseElements n ts of
                     None \<Rightarrow> None
                   | Some (vs, rest) \<Rightarrow> Some (JArray vs, rest)))
      | LBrace \<Rightarrow>
          (case ts of
             RBrace # rest \<Rightarrow> Some (JObject [], rest)
           | _ \<Rightarrow> (case parseMembers n ts of
                     None \<Rightarrow> None
                   | Some (ms, rest) \<Rightarrow> Some (JObject (foldl CreateDataProperty [] ms), rest)))
      | _ \<Rightarrow> None)"
| "parseElements 0 ts = None"
| "parseElements (Suc n) ts =
     (case parseValue n ts of
        None \<Rightarrow> None
      | Some (v, rest) \<Rightarrow>
          (case rest of
             RBracket # rest' \<Rightarrow> Some ([v], rest')
           | Comma # rest' \<Rightarrow>
               (case parseElements n rest' of
                  None \<Rightarrow> None
                | Some (vs, rest'') \<Rightarrow> Some (v # vs, rest''))
           | _ \<Rightarrow> None))"
| "parseMembers 0 ts = None"
| "parseMembers (Suc n) ts =
     (case ts of
        StringTok k # Colon # ts' \<Rightarrow>
          (case parseValue n ts' of
             None \<Rightarrow> None
           | Some (v, rest) \<Rightarrow>
               (case rest of
                  RBrace # rest' \<Rightarrow> Some ([(k, v)], rest')
                | Comma # rest' \<Rightarrow>
                    (case parseMembers n rest' of
                       None \<Rightarrow> None
                     | Some (ms, rest'') \<Rightarrow> Some ((k, v) # ms, rest''))
                | _ \<Rightarrow> None))
      | _ \<Rightarrow> None)"

definition JSON_parse :: "token list \<Rightarrow> jsvalue option" where
  "JSON_parse ts =
     (case parseValue (2 * length ts + 1) ts of
        Some (v, []) \<Rightarrow> Some v
      | _ \<Rightarrow> None)"

text \<open>
  \<^verbatim>\<open>if (!raw) return fallback; try { return JSON.parse(raw) as T; } catch { return fallback; }\<close>
  A \<^verbatim>\<open>null\<close> is \<open>None\<close>. A text without tokens is the empty string, which is
  falsy, or white space, which \<^verbatim>\<open>JSON.parse\<close> rejects: the fallback either way.
\<close>

definition safeParseJSON :: "token list option \<Rightarrow> jsvalue \<Rightarrow> jsvalue" where
  "safeParseJSON raw fallback =
     (case raw of
        None \<Rightarrow> fallback
      | Some ts \<Rightarrow>
          if ts = [] then fallback
          else (case JSON_parse ts of Some v \<Rightarrow> v | None \<Rightarrow> fallback))"

text \<open>
  The object of an entry, with the properties in the order \<^verbatim>\<open>addTransaction\<close> creates
  them, and the array that \<^verbatim>\<open>transactions\<close> holds.
\<close>

definition toObject :: "Transaction \<Rightarrow> jsvalue" where
  "toObject t =
     JObject
       [(''id'', JString (tx_id t)),
        (''date'', JString (tx_date t)),
        (''type'', JString (TxType_string (tx_type t))),
        (''category'', JString (tx_category t)),
        (''amount'', JNumber (tx_amount t)),
        (''details'', case tx_details t of None \<Rightarrow> JUndefined | Some d \<Rightarrow> JString d)]"

definition transactionsValue :: "Transaction list \<Rightarrow> jsvalue" where
  "transactionsValue txs = JArray (map toObject txs)"

text \<open>
  \<^verbatim>\<open>downloadJSON(filename, data)\<close>: the content of the file it offers,
  \<^verbatim>\<open>JSON.stringify(data, null, 2)\<close>.
\<close>

definition downloadJSON :: "jsvalue \<Rightarrow> token list option" where
  "downloadJSON data = JSON_stringify data"

text \<open>
  The import handler, once a file is chosen:
  \<^verbatim>\<open>const data = safeParseJSON<Transaction[]>(text, []); setTransactions(data);\<close>
  The value it stores is not checked.
\<close>

definition importFile :: "token list \<Rightarrow> jsvalue" where
  "importFile text = safeParseJSON (Some text) (JArray [])"

text \<open>Export, then import of the exported file.\<close>

definition exportThenImport :: "Transaction list \<Rightarrow> jsvalue option" where
  "exportThenImport txs = map_option importFile (downloadJSON (transactionsValue txs))"

text \<open>
  A parsed value read at the declared type \<^verbatim>\<open>Transaction[]\<close>, which the cast
  \<^verbatim>\<open>as T\<close> asserts and nothing checks: \<open>None\<close> when the value has not that shape.
\<close>

definition TxType_of_string :: "string \<Rightarrow> TxType option" where
  "TxType_of_string s =
     (if s = ''Income'' then Some Income
      else if s = ''Expenses'' then Some Expenses
      else if s = ''Savings'' then Some Savings
      else if s = ''Investments'' then Some Investments
      else None)"

definition stringProperty :: "(string \<times> jsvalue) list \<Rightarrow> string \<Rightarrow> string option" where
  "stringProperty ms k = (case map_of ms k of Some (JString s) \<Rightarrow> Some s | _ \<Rightarrow> None)"

definition asTransaction :: "jsvalue \<Rightarrow> Transaction option" where
  "asTransaction v =
     (case v of
        JObject ms \<Rightarrow>
          (case (stringProperty ms ''id'', stringProperty ms ''date'',
                 Option.bind (stringProperty ms ''type'') TxType_of_string,
                 stringProperty ms ''category'', map_of ms ''amount'') of
             (Some i, Some d, Some k, Some c, Some (JNumber a)) \<Rightarrow>
               (case map_of ms ''details'' of
                  None \<Rightarrow>
                    Some \<lparr>tx_id = i, tx_date = d, tx_type = k, tx_category = c,
                          tx_amount = a, tx_details = None\<rparr>
                | Some JUndefined \<Rightarrow>
                    Some \<lparr>tx_id = i, tx_date = d, tx_type = k, tx_category = c,
                          tx_amount = a, tx_details = None\<rparr>
                | Some (JString n) \<Rightarrow>
                    Some \<lparr>tx_id = i, tx_date = d, tx_type = k, tx_category = c,
                          tx_amount = a, tx_details = Some n\<rparr>
                | _ \<Rightarrow> None)
           | _ \<Rightarrow> None)
      | _ \<Rightarrow> None)"

definition asTransactions :: "jsvalue \<Rightarrow> Transaction list option" where
  "asTransactions v = (case v of JArray vs \<Rightarrow> those (map asTransaction vs) | _ \<Rightarrow> None)"

section \<open>Reference definitions\<close>

text \<open>
  The specification's \<open>sumByKind\<close>, following its words: the sum of \<open>amount\<close>, coerced
  to \<open>0\<close> when non-finite, over the entries of kind \<open>k\<close>.
\<close>

definition spec_sumByKind :: "Transaction list \<Rightarrow> TxType \<Rightarrow> number" where
  "spec_sumByKind entries k =
     foldl num_add (Fin 0)
       (map (\<lambda>t. if isFinite (tx_amount t) then tx_amount t else Fin 0)
         (filter (\<lambda>t. tx_type t = k) entries))"

text \<open>
  The specification's \<open>scaleMax\<close>, following its words: the maximum absolute value
  across all series, floored at \<open>1\<close>.
\<close>

definition spec_scaleMax :: "number list list \<Rightarrow> number" where
  "spec_scaleMax series = Math_max (Fin 1 # map Math_abs (concat series))"

text \<open>A sequence of budget edits, each a call of \<open>setBudget\<close>.\<close>

fun applyEdits :: "BudgetStore \<Rightarrow> (string \<times> TxType \<times> string \<times> number) list \<Rightarrow> BudgetStore" where
  "applyEdits budgets [] = budgets"
| "applyEdits budgets ((monthKey, t, cat, v) # edits) =
     applyEdits (setBudget budgets monthKey t cat v) edits"

text \<open>The value that \<^verbatim>\<open>Number.isFinite(v) ? v : 0\<close> keeps.\<close>

definition real_or_zero :: "number \<Rightarrow> real" where
  "real_or_zero v = (case v of Fin r \<Rightarrow> r | _ \<Rightarrow> 0)"

text \<open>
  Entries whose sums are computed exactly: every amount is an integer, and the absolute
  values of all amounts add up to at most \<open>2^53\<close>.
\<close>

definition is_integer :: "number \<Rightarrow> bool" where
  "is_integer v = (case v of Fin r \<Rightarrow> r = of_int \<lfloor>r\<rfloor> | _ \<Rightarrow> False)"

definition abs_total :: "Transaction list \<Rightarrow> real" where
  "abs_total entries = (\<Sum>t\<leftarrow>entries. \<bar>real_or_zero (tx_amount t)\<bar>)"

text \<open>The place of a category in the declaration of the expense categories.\<close>

definition declIndex :: "string \<Rightarrow> nat" where
  "declIndex c = length (takeWhile (\<lambda>x. x \<noteq> c) (CATEGORIES Expenses))"

text \<open>The ranking order: a greater total first, and among equal totals the declaration order.\<close>

definition ranksBefore :: "CategoryRow \<Rightarrow> CategoryRow \<Rightarrow> bool" where
  "ranksBefore a b =
     (num_less (row_total b) (row_total a) \<or>
      (row_total a = row_total b \<and> declIndex (row_category a) < declIndex (row_category b)))"

text \<open>The rows of \<open>topExpenses\<close> before sorting: the categories of positive total.\<close>

definition expenseRows :: "Transaction list \<Rightarrow> string \<Rightarrow> CategoryRow list" where
  "expenseRows txs m =
     filter (\<lambda>r. num_greater (row_total r) (Fin 0))
       (map (\<lambda>c. \<lparr>row_category = c, row_total = sumForMonthTypeCategory txs m Expenses c\<rparr>)
         (CATEGORIES Expenses))"

text \<open>The tokens that export writes for an entry, and the object that import reads from them.\<close>

definition amountToken :: "number \<Rightarrow> token" where
  "amountToken n = (case n of Fin r \<Rightarrow> NumberTok r | _ \<Rightarrow> NullTok)"

definition txTokens :: "Transaction \<Rightarrow> token list" where
  "txTokens t =
     [LBrace, StringTok ''id'', Colon, StringTok (tx_id t), Comma,
      StringTok ''date'', Colon, StringTok (tx_date t), Comma,
      StringTok ''type'', Colon, StringTok (TxType_string (tx_type t)), Comma,
      StringTok ''category'', Colon, StringTok (tx_category t), Comma,
      StringTok ''amount'', Colon, amountToken (tx_amount t)]
     @ (case tx_details t of None \<Rightarrow> [] | Some d \<Rightarrow> [Comma, StringTok ''details'', Colon, StringTok d])
     @ [RBrace]"

definition readBack :: "Transaction \<Rightarrow> jsvalue" where
  "readBack t =
     JObject
       ([(''id'', JString (tx_id t)),
         (''date'', JString (tx_date t)),
         (''type'', JString (TxType_string (tx_type t))),
         (''category'', JString (tx_category t)),
         (''amount'', case tx_amount t of Fin r \<Rightarrow> JNumber (overflow r) | _ \<Rightarrow> JNull)]
        @ (case tx_details t of None \<Rightarrow> [] | Some d \<Rightarrow> [(''details'', JString d)]))"

section \<open>Sample data\<close>

text \<open>An entry without a note, for the examples.\<close>

definition mkTx :: "string \<Rightarrow> string \<Rightarrow> TxType \<Rightarrow> string \<Rightarrow> number \<Rightarrow> Transaction" where
  "mkTx i d t c a =
     \<lparr>tx_id = i, tx_date = d, tx_type = t, tx_category = c, tx_amount = a, tx_details = None\<rparr>"

text \<open>The entries and the allocation of the specification's scenario.\<close>

definition sampleEntries :: "Transaction list" where
  "sampleEntries =
     [mkTx ''id-1'' ''2026-01-05'' Income ''Salary'' (Fin 1000),
      mkTx ''id-2'' ''2026-01-10'' Expenses ''Rent'' (Fin 400)]"

definition sampleBudgets :: BudgetStore where
  "sampleBudgets = [''2026-01|Expenses|Rent'' \<mapsto> Fin 500]"

text \<open>
  Entries of one month with six positive expense categories, a negative total and two
  ties, one of them where the ranking is cut.
\<close>

definition rankingEntries :: "Transaction list" where
  "rankingEntries =
     [mkTx ''id-1'' ''2026-01-02'' Expenses ''Rent'' (Fin 400),
      mkTx ''id-2'' ''2026-01-03'' Expenses ''Transport'' (Fin 100),
      mkTx ''id-3'' ''2026-01-04'' Expenses ''Groceries'' (Fin 400),
      mkTx ''id-4'' ''2026-01-05'' Expenses ''Phone & Internet'' (Fin 50),
      mkTx ''id-5'' ''2026-01-06'' Expenses ''Subscriptions'' (Fin 10),
      mkTx ''id-6'' ''2026-01-07'' Expenses ''School & Books'' (Fin 10),
      mkTx ''id-7'' ''2026-01-08'' Expenses ''Health'' (Fin (- 5))]"

section \<open>Facts about numbers\<close>

lemma DBL_LIMIT_big: "2 ^ 53 < DBL_LIMIT"
proof -
  have a: "(2::real) ^ 971 \<le> 2 ^ 1024" by (rule power_increasing) simp_all
  have b: "(2::real) ^ 971 = 2 * 2 ^ 970" by (simp only: power_Suc [symmetric]) simp
  have c: "(2::real) ^ 53 < 2 ^ 970" by (rule power_strict_increasing) simp_all
  from a b c show ?thesis unfolding DBL_LIMIT_def by linarith
qed

lemma DBL_LIMIT_pos: "0 < DBL_LIMIT"
  using DBL_LIMIT_big by (rule less_trans [rotated]) simp

lemma overflow_small [simp]: "\<bar>r\<bar> \<le> 2 ^ 53 \<Longrightarrow> overflow r = Fin r"
  using DBL_LIMIT_big unfolding overflow_def by auto

lemma pow1023_facts:
  "(2::real) ^ 1023 < DBL_LIMIT" "DBL_LIMIT \<le> (2::real) ^ 1023 + 2 ^ 1023" "0 < (2::real) ^ 1023"
proof -
  have a: "(2::real) ^ 1024 = 2 * 2 ^ 1023"
    by (simp only: power_Suc [symmetric]) simp
  have b: "(2::real) ^ 970 < 2 ^ 1023" by (rule power_strict_increasing) simp_all
  have c: "0 < (2::real) ^ 970" by (rule zero_less_power) simp
  show "0 < (2::real) ^ 1023" by (rule zero_less_power) simp
  from a b show "(2::real) ^ 1023 < DBL_LIMIT" unfolding DBL_LIMIT_def by linarith
  from a c show "DBL_LIMIT \<le> (2::real) ^ 1023 + 2 ^ 1023" unfolding DBL_LIMIT_def by linarith
qed

text \<open>The literal \<^verbatim>\<open>1e999\<close> is beyond the doubles.\<close>

lemma overflow_1e999: "overflow (10 ^ 999) = PosInf"
proof -
  have "DBL_LIMIT \<le> (2::real) ^ 1024" unfolding DBL_LIMIT_def by simp
  also have "\<dots> \<le> 2 ^ 2997" by (rule power_increasing) simp_all
  also have "(2::real) ^ 2997 = (2 ^ 3) ^ 999" by (simp only: power_mult [symmetric]) simp
  also have "\<dots> \<le> 10 ^ 999" by (rule power_mono) simp_all
  finally show ?thesis by (simp only: overflow_def if_True)
qed

lemma num_less_zero_overflow [simp]:
  "num_less (Fin 0) (overflow r) = (0 < r)" "num_less (overflow r) (Fin 0) = (r < 0)"
  using DBL_LIMIT_pos by (auto simp: overflow_def)

lemma variance_sign:
  "num_greater (num_sub b t) (Fin 0) = num_less t b"
  "num_less (num_sub b t) (Fin 0) = num_less b t"
  by (cases b; cases t; simp add: num_sub_def num_greater_def)+

lemma num_less_trans: "num_less a b \<Longrightarrow> num_less b c \<Longrightarrow> num_less a c"
  by (cases a; cases b; cases c) simp_all

lemma num_less_asym: "num_less a b \<Longrightarrow> \<not> num_less b a"
  by (cases a; cases b) simp_all

lemma num_less_irrefl: "\<not> num_less a a"
  by (cases a) simp_all

lemma num_less_linear: "a \<noteq> NaN \<Longrightarrow> b \<noteq> NaN \<Longrightarrow> num_less a b \<or> a = b \<or> num_less b a"
  by (cases a; cases b) auto

lemma or_zero_NaN_only: "or_zero n = (if n = NaN then Fin 0 else n)"
  by (simp add: or_zero_def)

lemma or_zero_Fin: "or_zero (Fin r) = Fin r"
  by (simp add: or_zero_def)

lemma positive_not_NaN: "num_greater v (Fin 0) \<Longrightarrow> v \<noteq> NaN"
  by (cases v) (simp_all add: num_greater_def)

lemma num_add_finite_not_NaN: "acc \<noteq> NaN \<Longrightarrow> isFinite x \<Longrightarrow> num_add acc x \<noteq> NaN"
  by (cases acc; cases x) (simp_all add: overflow_def)

lemma foldl_num_add_not_NaN:
  "acc \<noteq> NaN \<Longrightarrow> \<forall>c \<in> set cs. isFinite (f c) \<Longrightarrow>
   foldl (\<lambda>acc c. num_add acc (f c)) acc cs \<noteq> NaN"
  by (induction cs arbitrary: acc) (simp_all add: num_add_finite_not_NaN)

section \<open>Facts about the sample data\<close>

lemma mkTx_simps [simp]:
  "tx_type (mkTx i d t c a) = t" "tx_amount (mkTx i d t c a) = a"
  "tx_date (mkTx i d t c a) = d" "tx_category (mkTx i d t c a) = c"
  by (simp_all add: mkTx_def)

lemma sumFor_sample_simps:
  "sumForMonthTypeCategory sampleEntries ''2026-01'' Income c = (if c = ''Salary'' then Fin 1000 else Fin 0)"
  "sumForMonthTypeCategory sampleEntries ''2026-01'' Expenses c = (if c = ''Rent'' then Fin 400 else Fin 0)"
  "sumForMonthTypeCategory sampleEntries ''2026-01'' Savings c = Fin 0"
  "sumForMonthTypeCategory sampleEntries ''2026-01'' Investments c = Fin 0"
  by (simp_all add: sumForMonthTypeCategory_def sampleEntries_def monthKeyFromDate_def or_zero_def)

lemma monthTrackedTotal_sample:
  "monthTrackedTotal sampleEntries ''2026-01'' Income = Fin 1000"
  "monthTrackedTotal sampleEntries ''2026-01'' Expenses = Fin 400"
  "monthTrackedTotal sampleEntries ''2026-01'' Savings = Fin 0"
  "monthTrackedTotal sampleEntries ''2026-01'' Investments = Fin 0"
  by (simp_all add: monthTrackedTotal_def sumFor_sample_simps)

lemma monthRow_sample:
  "monthRow sampleEntries ''2026-01'' =
     \<lparr>month = ''2026-01'', income = Fin 1000, expenses = Fin 400, savings = Fin 0,
      investments = Fin 0, net = Fin 600\<rparr>"
  by (simp add: monthRow_def Let_def monthTrackedTotal_sample num_sub_def)

lemma monthBudgetTotal_sample:
  "monthBudgetTotal sampleBudgets ''2026-01'' Expenses = Fin 500"
  by (simp add: monthBudgetTotal_def getBudget_def budgetKey_def sampleBudgets_def)

section \<open>Sums by kind\<close>

text \<open>
  C1, as the code has it. \<open>sumByType\<close> of the empty list is \<open>0\<close>, and in general it is
  the sum, in list order, of the amounts of the entries of kind \<open>k\<close> with NaN (alone)
  replaced by \<open>0\<close>. Whenever no entry of kind \<open>k\<close> has an infinite amount, it is the
  specification's sum, and it is not NaN.
\<close>

theorem sumByType_sum:
  "sumByType [] k = Fin 0 \<and>
   sumByType entries k =
     foldl num_add (Fin 0)
       (map (\<lambda>t. if tx_amount t = NaN then Fin 0 else tx_amount t)
         (filter (\<lambda>t. tx_type t = k) entries)) \<and>
   ((\<forall>t \<in> set entries. tx_type t = k \<longrightarrow> tx_amount t \<noteq> PosInf \<and> tx_amount t \<noteq> NegInf)
      \<longrightarrow> sumByType entries k = spec_sumByKind entries k \<and> sumByType entries k \<noteq> NaN)"
proof (intro conjI impI)
  show "sumByType [] k = Fin 0"
    by (simp add: sumByType_def)
  show eq: "sumByType entries k =
     foldl num_add (Fin 0)
       (map (\<lambda>t. if tx_amount t = NaN then Fin 0 else tx_amount t)
         (filter (\<lambda>t. tx_type t = k) entries))"
    by (simp add: sumByType_def foldl_map or_zero_NaN_only)
  assume fin: "\<forall>t \<in> set entries. tx_type t = k \<longrightarrow> tx_amount t \<noteq> PosInf \<and> tx_amount t \<noteq> NegInf"
  have "map (\<lambda>t. if tx_amount t = NaN then Fin 0 else tx_amount t)
          (filter (\<lambda>t. tx_type t = k) entries) =
        map (\<lambda>t. if isFinite (tx_amount t) then tx_amount t else Fin 0)
          (filter (\<lambda>t. tx_type t = k) entries)"
  proof (rule map_cong [OF refl])
    fix t assume "t \<in> set (filter (\<lambda>t. tx_type t = k) entries)"
    with fin have "tx_amount t \<noteq> PosInf" "tx_amount t \<noteq> NegInf" by auto
    then show "(if tx_amount t = NaN then Fin 0 else tx_amount t) =
               (if isFinite (tx_amount t) then tx_amount t else Fin 0)"
      by (cases "tx_amount t") simp_all
  qed
  with eq show "sumByType entries k = spec_sumByKind entries k"
    by (simp only: spec_sumByKind_def)
  have "\<forall>t \<in> set (filter (\<lambda>t. tx_type t = k) entries). isFinite (or_zero (tx_amount t))"
  proof
    fix t assume "t \<in> set (filter (\<lambda>t. tx_type t = k) entries)"
    with fin have "tx_amount t \<noteq> PosInf" "tx_amount t \<noteq> NegInf" by auto
    then show "isFinite (or_zero (tx_amount t))"
      by (cases "tx_amount t") (simp_all add: or_zero_def)
  qed
  then show "sumByType entries k \<noteq> NaN"
    unfolding sumByType_def by (intro foldl_num_add_not_NaN) simp_all
qed

theorem sumByType_sum_witness:
  "sumByType [mkTx ''a'' ''2026-01-05'' Income ''Salary'' (Fin 10),
              mkTx ''b'' ''2026-01-06'' Income ''Salary'' NaN,
              mkTx ''c'' ''2026-01-07'' Expenses ''Rent'' PosInf] Income =
   spec_sumByKind [mkTx ''a'' ''2026-01-05'' Income ''Salary'' (Fin 10),
              mkTx ''b'' ''2026-01-06'' Income ''Salary'' NaN,
              mkTx ''c'' ''2026-01-07'' Expenses ''Rent'' PosInf] Income \<and>
   spec_sumByKind [mkTx ''a'' ''2026-01-05'' Income ''Salary'' (Fin 10),
              mkTx ''b'' ''2026-01-06'' Income ''Salary'' NaN,
              mkTx ''c'' ''2026-01-07'' Expenses ''Rent'' PosInf] Income = Fin 10"
  using sumByType_sum [of Income "[mkTx ''a'' ''2026-01-05'' Income ''Salary'' (Fin 10),
              mkTx ''b'' ''2026-01-06'' Income ''Salary'' NaN,
              mkTx ''c'' ''2026-01-07'' Expenses ''Rent'' PosInf]"]
  by (simp add: spec_sumByKind_def)

text \<open>
  An infinite amount is not coerced: the sum of one entry of amount \<open>Infinity\<close> is
  \<open>Infinity\<close>, where the specification's sum is \<open>0\<close>, and with a second entry of
  amount \<open>-Infinity\<close> the sum is NaN.
\<close>

theorem sumByType_infinite_counterexample:
  "sumByType [mkTx ''a'' ''2026-01-05'' Income ''Salary'' PosInf] Income = PosInf \<and>
   spec_sumByKind [mkTx ''a'' ''2026-01-05'' Income ''Salary'' PosInf] Income = Fin 0 \<and>
   sumByType [mkTx ''a'' ''2026-01-05'' Income ''Salary'' PosInf,
              mkTx ''b'' ''2026-01-06'' Income ''Salary'' NegInf] Income = NaN"
  by (simp add: sumByType_def spec_sumByKind_def or_zero_def)

section \<open>Budget against tracked\<close>

text \<open>
  C2. For every month and kind, the variance shown on the Plan tab is
  \<open>monthBudgetTotal - monthTrackedTotal\<close>; it is positive exactly when the tracked total
  is below the budget, and negative exactly when the budget is below the tracked total.
\<close>

theorem planRow_variance:
  "kind (planRow budgets txs m k) = k \<and>
   budgetTotal (planRow budgets txs m k) = monthBudgetTotal budgets m k \<and>
   trackedTotal (planRow budgets txs m k) = monthTrackedTotal txs m k \<and>
   variance (planRow budgets txs m k) =
     num_sub (monthBudgetTotal budgets m k) (monthTrackedTotal txs m k) \<and>
   num_greater (variance (planRow budgets txs m k)) (Fin 0) =
     num_less (monthTrackedTotal txs m k) (monthBudgetTotal budgets m k) \<and>
   num_less (variance (planRow budgets txs m k)) (Fin 0) =
     num_less (monthBudgetTotal budgets m k) (monthTrackedTotal txs m k) \<and>
   planRows budgets txs m = map (planRow budgets txs m) [Income, Expenses, Savings, Investments]"
  by (simp add: planRow_def Let_def variance_sign planRows_def TxTypes_def)

theorem planRow_variance_witness:
  "variance (planRow sampleBudgets sampleEntries ''2026-01'' Expenses) = Fin 100 \<and>
   num_greater (variance (planRow sampleBudgets sampleEntries ''2026-01'' Expenses)) (Fin 0)"
  using planRow_variance [of sampleBudgets sampleEntries "''2026-01''" Expenses]
  by (simp add: monthBudgetTotal_sample monthTrackedTotal_sample num_sub_def num_greater_def)

section \<open>Top categories\<close>

lemma cmp_desc_positive:
  "num_greater (num_sub (row_total y) (row_total x)) (Fin 0) = num_less (row_total x) (row_total y)"
  by (rule variance_sign)

lemma mset_insert_cmp: "mset (insert_cmp cmp x ys) = add_mset x (mset ys)"
  by (induction ys) simp_all

lemma mset_Array_sort: "mset (Array_sort cmp xs) = mset xs"
  by (induction xs) (simp_all add: Array_sort_def mset_insert_cmp)

lemma set_insert_cmp: "set (insert_cmp cmp x ys) = insert x (set ys)"
  using mset_insert_cmp [of cmp x ys, THEN arg_cong, of set_mset] by simp

lemma ranksBefore_step:
  assumes xy: "\<not> num_less (row_total x) (row_total y)" and nx: "row_total x \<noteq> NaN" and ny: "row_total y \<noteq> NaN"
    and yz: "ranksBefore y z" and ix: "declIndex (row_category x) < declIndex (row_category z)"
  shows "ranksBefore x z"
proof -
  from num_less_linear [OF nx ny] xy
  have c: "row_total x = row_total y \<or> num_less (row_total y) (row_total x)" by blast
  from yz have d: "num_less (row_total z) (row_total y) \<or> row_total y = row_total z"
    by (auto simp: ranksBefore_def)
  from c d ix show ?thesis
    unfolding ranksBefore_def
    by (metis num_less_trans)
qed

lemma sorted_insert_cmp:
  assumes "sorted_wrt ranksBefore ys" and "row_total x \<noteq> NaN" and "\<forall>y \<in> set ys. row_total y \<noteq> NaN"
    and "\<forall>y \<in> set ys. declIndex (row_category x) < declIndex (row_category y)"
  shows "sorted_wrt ranksBefore (insert_cmp (\<lambda>a b. num_sub (row_total b) (row_total a)) x ys)"
  using assms
proof (induction ys)
  case Nil
  then show ?case by simp
next
  case (Cons y ys)
  show ?case
  proof (cases "num_less (row_total x) (row_total y)")
    case True
    then have "ranksBefore y x" by (simp add: ranksBefore_def)
    with Cons True show ?thesis
      by (simp add: cmp_desc_positive set_insert_cmp)
  next
    case False
    from False Cons.prems have xy: "ranksBefore x y"
      using num_less_linear [of "row_total x" "row_total y"] by (auto simp: ranksBefore_def)
    have "ranksBefore x z" if "z \<in> set ys" for z
    proof (rule ranksBefore_step [OF False])
      from Cons.prems show "row_total x \<noteq> NaN" "row_total y \<noteq> NaN" by simp_all
      from Cons.prems that show "ranksBefore y z" by simp
      from Cons.prems that show "declIndex (row_category x) < declIndex (row_category z)" by simp
    qed
    with xy Cons.prems(1) False show ?thesis
      by (simp add: cmp_desc_positive)
  qed
qed

lemma sorted_Array_sort:
  assumes "sorted_wrt (\<lambda>a b. declIndex (row_category a) < declIndex (row_category b)) xs"
    and "\<forall>x \<in> set xs. row_total x \<noteq> NaN"
  shows "sorted_wrt ranksBefore (Array_sort (\<lambda>a b. num_sub (row_total b) (row_total a)) xs)"
  using assms
proof (induction xs)
  case Nil
  then show ?case by (simp add: Array_sort_def)
next
  case (Cons x xs)
  let ?S = "Array_sort (\<lambda>a b. num_sub (row_total b) (row_total a)) xs"
  have s: "set ?S = set xs"
    using mset_Array_sort [of "\<lambda>a b. num_sub (row_total b) (row_total a)" xs] by (rule mset_eq_setD)
  from Cons have "sorted_wrt ranksBefore ?S" by simp
  then have "sorted_wrt ranksBefore (insert_cmp (\<lambda>a b. num_sub (row_total b) (row_total a)) x ?S)"
    using Cons.prems by (intro sorted_insert_cmp) (simp_all add: s)
  then show ?case by (simp add: Array_sort_def)
qed

lemma declIndex_simps:
  "declIndex ''Rent'' = 0" "declIndex ''Transport'' = 1" "declIndex ''Groceries'' = 2"
  "declIndex ''Phone & Internet'' = 3" "declIndex ''Subscriptions'' = 4"
  "declIndex ''School & Books'' = 5" "declIndex ''Health'' = 6" "declIndex ''Leisure'' = 7"
  by (simp_all add: declIndex_def)

lemma CATEGORIES_Expenses_increasing:
  "sorted_wrt (\<lambda>a b. declIndex a < declIndex b) (CATEGORIES Expenses)"
  by (simp add: declIndex_simps)

lemma CATEGORIES_Expenses_distinct: "distinct (CATEGORIES Expenses)"
  by simp

lemma topExpenses_expenseRows:
  "topExpenses txs m =
     take 5 (Array_sort (\<lambda>a b. num_sub (row_total b) (row_total a)) (expenseRows txs m))"
  by (simp only: topExpenses_def expenseRows_def)

lemma expenseRows_member:
  "r \<in> set (expenseRows txs m) \<longleftrightarrow>
     row_category r \<in> set (CATEGORIES Expenses) \<and>
     r = \<lparr>row_category = row_category r,
          row_total = sumForMonthTypeCategory txs m Expenses (row_category r)\<rparr> \<and>
     num_greater (row_total r) (Fin 0)"
proof -
  have "r \<in> (\<lambda>c. \<lparr>row_category = c, row_total = f c\<rparr>) ` S \<longleftrightarrow>
        row_category r \<in> S \<and> r = \<lparr>row_category = row_category r, row_total = f (row_category r)\<rparr>"
    for f and S :: "string set"
    by (cases r) auto
  then show ?thesis
    unfolding expenseRows_def by (simp only: set_filter set_map mem_Collect_eq) blast
qed

lemma expenseRows_categories:
  "map row_category (expenseRows txs m) =
     filter (\<lambda>c. num_greater (sumForMonthTypeCategory txs m Expenses c) (Fin 0))
       (CATEGORIES Expenses)"
  unfolding expenseRows_def by (simp only: filter_map map_map comp_def CategoryRow.simps map_ident)

lemma expenseRows_increasing:
  "sorted_wrt (\<lambda>a b. declIndex (row_category a) < declIndex (row_category b)) (expenseRows txs m)"
proof -
  have "sorted_wrt (\<lambda>a b. declIndex a < declIndex b) (map row_category (expenseRows txs m))"
    unfolding expenseRows_categories
    by (rule sorted_wrt_filter) (rule CATEGORIES_Expenses_increasing)
  then show ?thesis by (simp add: sorted_wrt_map)
qed

lemma sorted_ranking:
  "sorted_wrt ranksBefore
     (Array_sort (\<lambda>a b. num_sub (row_total b) (row_total a)) (expenseRows txs m))"
proof (rule sorted_Array_sort [OF expenseRows_increasing], rule ballI)
  fix x assume "x \<in> set (expenseRows txs m)"
  then have "num_greater (row_total x) (Fin 0)" by (simp only: expenseRows_member)
  then show "row_total x \<noteq> NaN" by (rule positive_not_NaN)
qed

text \<open>
  C3, as the code has it. \<open>topExpenses\<close> ranks the expense categories of the fixed
  list whose tracked total for the month is greater than \<open>0\<close>: it has as many rows as
  there are such categories, up to five; every row is such a category with its total, no
  category twice; the rows descend by total, equal totals in declaration order; and a
  category of positive total that is left out is left out of a full list of five rows,
  each of which ranks before it: by a greater total, or by an equal total and an earlier
  place in the declaration.
\<close>

theorem topExpenses_ranking:
  "length (topExpenses txs m) =
     min 5 (length (filter (\<lambda>c. num_greater (sumForMonthTypeCategory txs m Expenses c) (Fin 0))
                      (CATEGORIES Expenses))) \<and>
   (\<forall>r \<in> set (topExpenses txs m).
      row_category r \<in> set (CATEGORIES Expenses) \<and>
      row_total r = sumForMonthTypeCategory txs m Expenses (row_category r) \<and>
      num_greater (row_total r) (Fin 0)) \<and>
   distinct (map row_category (topExpenses txs m)) \<and>
   sorted_wrt
     (\<lambda>a b. num_less (row_total b) (row_total a) \<or>
            (row_total a = row_total b \<and>
             declIndex (row_category a) < declIndex (row_category b)))
     (topExpenses txs m) \<and>
   (\<forall>c \<in> set (CATEGORIES Expenses).
      num_greater (sumForMonthTypeCategory txs m Expenses c) (Fin 0) \<and>
      c \<notin> row_category ` set (topExpenses txs m) \<longrightarrow>
        length (topExpenses txs m) = 5 \<and>
        (\<forall>r \<in> set (topExpenses txs m).
           num_less (sumForMonthTypeCategory txs m Expenses c) (row_total r) \<or>
           (row_total r = sumForMonthTypeCategory txs m Expenses c \<and>
            declIndex (row_category r) < declIndex c)))"
proof -
  let ?cmp = "\<lambda>a b. num_sub (row_total b) (row_total a)"
  let ?S = "Array_sort ?cmp (expenseRows txs m)"
  let ?R = "topExpenses txs m"
  have R: "?R = take 5 ?S" by (rule topExpenses_expenseRows)
  have ms: "mset ?S = mset (expenseRows txs m)" by (rule mset_Array_sort)
  then have set_S: "set ?S = set (expenseRows txs m)" by (rule mset_eq_setD)
  from ms have len_S: "length ?S = length (expenseRows txs m)" by (rule mset_eq_length)
  have sorted_S: "sorted_wrt ranksBefore ?S" by (rule sorted_ranking)
  have sub: "set ?R \<subseteq> set (expenseRows txs m)"
    unfolding R using set_take_subset [of 5 ?S] set_S by simp
  have len: "length ?R =
     min 5 (length (filter (\<lambda>c. num_greater (sumForMonthTypeCategory txs m Expenses c) (Fin 0))
                      (CATEGORIES Expenses)))"
  proof -
    have "length (expenseRows txs m) = length (map row_category (expenseRows txs m))" by simp
    then show ?thesis
      unfolding R by (simp only: expenseRows_categories length_take len_S min.commute)
  qed
  have mem: "\<forall>r \<in> set ?R.
      row_category r \<in> set (CATEGORIES Expenses) \<and>
      row_total r = sumForMonthTypeCategory txs m Expenses (row_category r) \<and>
      num_greater (row_total r) (Fin 0)"
  proof
    fix r assume "r \<in> set ?R"
    with sub have r: "r \<in> set (expenseRows txs m)" by blast
    then have "r = \<lparr>row_category = row_category r,
          row_total = sumForMonthTypeCategory txs m Expenses (row_category r)\<rparr>"
      by (simp only: expenseRows_member)
    then have "row_total r = sumForMonthTypeCategory txs m Expenses (row_category r)"
      by (metis CategoryRow.select_convs(2))
    moreover from r have "row_category r \<in> set (CATEGORIES Expenses)"
      and "num_greater (row_total r) (Fin 0)"
      by (simp_all only: expenseRows_member)
    ultimately show "row_category r \<in> set (CATEGORIES Expenses) \<and>
      row_total r = sumForMonthTypeCategory txs m Expenses (row_category r) \<and>
      num_greater (row_total r) (Fin 0)"
      by blast
  qed
  have dist: "distinct (map row_category ?R)"
  proof -
    have "mset (map row_category ?S) = mset (map row_category (expenseRows txs m))"
      using ms by simp
    moreover have "distinct (map row_category (expenseRows txs m))"
      unfolding expenseRows_categories by (rule distinct_filter) (rule CATEGORIES_Expenses_distinct)
    ultimately have "distinct (map row_category ?S)"
      by (metis mset_eq_imp_distinct_iff)
    then show ?thesis unfolding R by (simp only: take_map [symmetric] distinct_take)
  qed
  have sorted_R: "sorted_wrt ranksBefore ?R"
    unfolding R using sorted_S by (rule sorted_wrt_take)
  have complete: "\<forall>c \<in> set (CATEGORIES Expenses).
      num_greater (sumForMonthTypeCategory txs m Expenses c) (Fin 0) \<and>
      c \<notin> row_category ` set ?R \<longrightarrow>
        length ?R = 5 \<and>
        (\<forall>r \<in> set ?R.
           num_less (sumForMonthTypeCategory txs m Expenses c) (row_total r) \<or>
           (row_total r = sumForMonthTypeCategory txs m Expenses c \<and>
            declIndex (row_category r) < declIndex c))"
  proof (intro ballI impI)
    fix c
    assume c: "c \<in> set (CATEGORIES Expenses)"
      and h: "num_greater (sumForMonthTypeCategory txs m Expenses c) (Fin 0) \<and>
              c \<notin> row_category ` set ?R"
    let ?row = "\<lparr>row_category = c, row_total = sumForMonthTypeCategory txs m Expenses c\<rparr>"
    from c h have "?row \<in> set (expenseRows txs m)"
      by (simp add: expenseRows_member del: CATEGORIES.simps)
    with set_S have inS: "?row \<in> set ?S" by simp
    from h have notR: "?row \<notin> set ?R" by force
    have split: "?S = ?R @ drop 5 ?S" unfolding R by simp
    with inS notR have inD: "?row \<in> set (drop 5 ?S)"
      by (metis Un_iff set_append)
    then have "drop 5 ?S \<noteq> []" by auto
    then have "5 < length ?S" by simp
    then have l5: "length ?R = 5" unfolding R by simp
    from sorted_S split have "sorted_wrt ranksBefore (?R @ drop 5 ?S)" by simp
    then have "\<forall>r \<in> set ?R. ranksBefore r ?row"
      using inD by (simp add: sorted_wrt_append)
    then have "\<forall>r \<in> set ?R.
           num_less (sumForMonthTypeCategory txs m Expenses c) (row_total r) \<or>
           (row_total r = sumForMonthTypeCategory txs m Expenses c \<and>
            declIndex (row_category r) < declIndex c)"
      by (simp add: ranksBefore_def)
    with l5 show "length ?R = 5 \<and>
        (\<forall>r \<in> set ?R.
           num_less (sumForMonthTypeCategory txs m Expenses c) (row_total r) \<or>
           (row_total r = sumForMonthTypeCategory txs m Expenses c \<and>
            declIndex (row_category r) < declIndex c))"
      by blast
  qed
  from sorted_R have sorted_R': "sorted_wrt
     (\<lambda>a b. num_less (row_total b) (row_total a) \<or>
            (row_total a = row_total b \<and>
             declIndex (row_category a) < declIndex (row_category b))) ?R"
    unfolding ranksBefore_def [abs_def] .
  from len mem dist sorted_R' complete show ?thesis by blast
qed

lemma rankingEntries_sums:
  "sumForMonthTypeCategory rankingEntries ''2026-01'' Expenses ''Rent'' = Fin 400"
  "sumForMonthTypeCategory rankingEntries ''2026-01'' Expenses ''Transport'' = Fin 100"
  "sumForMonthTypeCategory rankingEntries ''2026-01'' Expenses ''Groceries'' = Fin 400"
  "sumForMonthTypeCategory rankingEntries ''2026-01'' Expenses ''Phone & Internet'' = Fin 50"
  "sumForMonthTypeCategory rankingEntries ''2026-01'' Expenses ''Subscriptions'' = Fin 10"
  "sumForMonthTypeCategory rankingEntries ''2026-01'' Expenses ''School & Books'' = Fin 10"
  "sumForMonthTypeCategory rankingEntries ''2026-01'' Expenses ''Health'' = Fin (- 5)"
  "sumForMonthTypeCategory rankingEntries ''2026-01'' Expenses ''Leisure'' = Fin 0"
  by (simp_all add: sumForMonthTypeCategory_def rankingEntries_def monthKeyFromDate_def or_zero_def)

lemma topExpenses_rankingEntries:
  "topExpenses rankingEntries ''2026-01'' =
     [\<lparr>row_category = ''Rent'', row_total = Fin 400\<rparr>,
      \<lparr>row_category = ''Groceries'', row_total = Fin 400\<rparr>,
      \<lparr>row_category = ''Transport'', row_total = Fin 100\<rparr>,
      \<lparr>row_category = ''Phone & Internet'', row_total = Fin 50\<rparr>,
      \<lparr>row_category = ''Subscriptions'', row_total = Fin 10\<rparr>]"
  by (simp add: topExpenses_def rankingEntries_sums Array_sort_def num_greater_def num_sub_def)

theorem topExpenses_ranking_witness:
  "length (topExpenses rankingEntries ''2026-01'') = 5 \<and>
   row_category (topExpenses rankingEntries ''2026-01'' ! 4) = ''Subscriptions'' \<and>
   row_total (topExpenses rankingEntries ''2026-01'' ! 4) =
     sumForMonthTypeCategory rankingEntries ''2026-01'' Expenses ''School & Books'' \<and>
   declIndex (row_category (topExpenses rankingEntries ''2026-01'' ! 4)) <
     declIndex ''School & Books''"
proof -
  have c: "''School & Books'' \<in> set (CATEGORIES Expenses)" by simp
  have h: "num_greater (sumForMonthTypeCategory rankingEntries ''2026-01'' Expenses ''School & Books'')
             (Fin 0) \<and>
           ''School & Books'' \<notin> row_category ` set (topExpenses rankingEntries ''2026-01'')"
    by (simp add: rankingEntries_sums topExpenses_rankingEntries num_greater_def)
  have r: "topExpenses rankingEntries ''2026-01'' ! 4 \<in> set (topExpenses rankingEntries ''2026-01'')"
    by (simp add: topExpenses_rankingEntries)
  have n: "\<not> num_less (sumForMonthTypeCategory rankingEntries ''2026-01'' Expenses ''School & Books'')
             (row_total (topExpenses rankingEntries ''2026-01'' ! 4))"
    by (simp add: rankingEntries_sums topExpenses_rankingEntries)
  have k: "row_category (topExpenses rankingEntries ''2026-01'' ! 4) = ''Subscriptions''"
    by (simp add: topExpenses_rankingEntries)
  from topExpenses_ranking [of rankingEntries "''2026-01''"]
  have "\<forall>c \<in> set (CATEGORIES Expenses).
      num_greater (sumForMonthTypeCategory rankingEntries ''2026-01'' Expenses c) (Fin 0) \<and>
      c \<notin> row_category ` set (topExpenses rankingEntries ''2026-01'') \<longrightarrow>
        length (topExpenses rankingEntries ''2026-01'') = 5 \<and>
        (\<forall>r \<in> set (topExpenses rankingEntries ''2026-01'').
           num_less (sumForMonthTypeCategory rankingEntries ''2026-01'' Expenses c) (row_total r) \<or>
           (row_total r = sumForMonthTypeCategory rankingEntries ''2026-01'' Expenses c \<and>
            declIndex (row_category r) < declIndex c))"
    by (elim conjE)
  from this [rule_format, OF c h] r n k show ?thesis by blast
qed

text \<open>
  A category whose total is not zero but negative is excluded: the filter is
  \<^verbatim>\<open>r.total > 0\<close>.
\<close>

theorem topExpenses_negative_counterexample:
  "sumForMonthTypeCategory [mkTx ''id-1'' ''2026-01-08'' Expenses ''Rent'' (Fin (- 5))]
     ''2026-01'' Expenses ''Rent'' = Fin (- 5) \<and>
   topExpenses [mkTx ''id-1'' ''2026-01-08'' Expenses ''Rent'' (Fin (- 5))] ''2026-01'' = []"
  by (simp add: topExpenses_def sumForMonthTypeCategory_def monthKeyFromDate_def or_zero_def
      Array_sort_def num_greater_def)

section \<open>Chart scales\<close>

lemma foldl_num_max_Fin:
  "foldl num_max (Fin a) (map Fin rs) = Fin (Max (insert a (set rs)))"
proof (induction rs arbitrary: a)
  case Nil
  then show ?case by simp
next
  case (Cons r rs)
  have "foldl num_max (Fin a) (map Fin (r # rs)) = foldl num_max (Fin (max a r)) (map Fin rs)"
    by (simp add: max_def)
  also have "\<dots> = Fin (Max (insert (max a r) (set rs)))"
    by (rule Cons.IH)
  also have "Max (insert (max a r) (set rs)) = Max (insert a (set (r # rs)))"
    by (cases "set rs = {}") (simp_all add: max.assoc)
  finally show ?case .
qed

lemma finite_or_zero_Fin:
  "(if isFinite v then v else Fin 0) = Fin (real_or_zero v)"
  by (cases v) (simp_all add: real_or_zero_def)

lemma BarChart_max_Max:
  "BarChart_max series = Fin (Max (insert 1 (real_or_zero ` set (concat series))))"
proof -
  have "(\<lambda>v. if isFinite v then v else Fin 0) = (\<lambda>v. Fin (real_or_zero v))"
    by (rule ext) (rule finite_or_zero_Fin)
  then have "map (\<lambda>v. if isFinite v then v else Fin 0) (concat series) =
        map Fin (map real_or_zero (concat series))"
    by (simp add: comp_def)
  then have meq: "map (\<lambda>v. if isFinite v then v else Fin 0) (concat series) =
        map Fin (map real_or_zero (concat series))" .
  have "BarChart_max series =
        foldl num_max (Fin 1) (map (\<lambda>v. if isFinite v then v else Fin 0) (concat series))"
    by (simp add: BarChart_max_def Math_max_def)
  also have "\<dots> = foldl num_max (Fin 1) (map Fin (map real_or_zero (concat series)))"
    by (simp only: meq)
  finally show ?thesis
    by (simp only: foldl_num_max_Fin set_map)
qed

lemma Max_insert_one_zero:
  assumes "finite A"
  shows "Max (insert (1::real) (insert 0 A)) = Max (insert 1 A)"
  using assms by (cases "A = {}") simp_all

lemma Max_real_or_zero:
  "Max (insert 1 (real_or_zero ` set xs)) = Max (insert 1 {r. Fin r \<in> set xs})"
proof -
  have fin: "finite {r. Fin r \<in> set xs}"
  proof (rule finite_subset)
    show "{r. Fin r \<in> set xs} \<subseteq> real_or_zero ` set xs"
      by (force simp: real_or_zero_def image_iff)
  qed simp
  have sub: "real_or_zero ` set xs \<subseteq> insert 0 {r. Fin r \<in> set xs}"
    by (auto simp: real_or_zero_def split: number.splits)
  have sup: "{r. Fin r \<in> set xs} \<subseteq> real_or_zero ` set xs"
    by (force simp: real_or_zero_def image_iff)
  show ?thesis
  proof (rule antisym)
    have "Max (insert 1 (real_or_zero ` set xs)) \<le> Max (insert 1 (insert 0 {r. Fin r \<in> set xs}))"
      using sub fin by (intro Max_mono) auto
    then show "Max (insert 1 (real_or_zero ` set xs)) \<le> Max (insert 1 {r. Fin r \<in> set xs})"
      by (simp only: Max_insert_one_zero [OF fin])
    show "Max (insert 1 {r. Fin r \<in> set xs}) \<le> Max (insert 1 (real_or_zero ` set xs))"
      using sup by (intro Max_mono) auto
  qed
qed

lemma LineChart_max_Max:
  assumes "\<forall>v \<in> set vs. isFinite v"
  shows "LineChart_max vs = Fin (Max (insert 1 {\<bar>r\<bar> | r. Fin r \<in> set vs}))"
proof -
  have m: "map Math_abs vs = map Fin (map (\<lambda>v. \<bar>real_or_zero v\<bar>) vs)"
    using assms
  proof (induction vs)
    case (Cons v vs)
    then show ?case by (cases v) (simp_all add: real_or_zero_def)
  qed simp
  have s: "(\<lambda>v. \<bar>real_or_zero v\<bar>) ` set vs = {\<bar>r\<bar> | r. Fin r \<in> set vs}"
  proof (rule set_eqI)
    fix x
    show "x \<in> (\<lambda>v. \<bar>real_or_zero v\<bar>) ` set vs \<longleftrightarrow> x \<in> {\<bar>r\<bar> | r. Fin r \<in> set vs}"
    proof
      assume "x \<in> (\<lambda>v. \<bar>real_or_zero v\<bar>) ` set vs"
      then obtain v where v: "v \<in> set vs" "x = \<bar>real_or_zero v\<bar>" by auto
      with assms obtain r where "v = Fin r" by (cases v) auto
      with v show "x \<in> {\<bar>r\<bar> | r. Fin r \<in> set vs}" by (auto simp: real_or_zero_def)
    next
      assume "x \<in> {\<bar>r\<bar> | r. Fin r \<in> set vs}"
      then obtain r where "Fin r \<in> set vs" "x = \<bar>r\<bar>" by auto
      then show "x \<in> (\<lambda>v. \<bar>real_or_zero v\<bar>) ` set vs"
        by (force simp: real_or_zero_def image_iff)
    qed
  qed
  have "LineChart_max vs = foldl num_max (Fin 1) (map Math_abs vs)"
    by (simp add: LineChart_max_def Math_max_def)
  also have "\<dots> = foldl num_max (Fin 1) (map Fin (map (\<lambda>v. \<bar>real_or_zero v\<bar>) vs))"
    by (simp only: m)
  finally show ?thesis
    by (simp only: foldl_num_max_Fin set_map s)
qed

lemma abs_nonneg_map:
  assumes "\<forall>v \<in> set xs. \<exists>r\<ge>0. v = Fin r"
  shows "map Math_abs xs = map (\<lambda>v. if isFinite v then v else Fin 0) xs"
  using assms by (induction xs) auto

text \<open>
  C4, as the code has it. The scale of \<open>BarChart\<close> is the maximum of \<open>1\<close> and the
  finite values of all series, taken without absolute value: it is a finite number, at
  least \<open>1\<close>, exactly \<open>1\<close> on all-zero and on empty input, and the specification's
  \<open>scaleMax\<close> when every value is finite and not negative. The scale of \<open>LineChart\<close>
  is the specification's \<open>scaleMax\<close> of its one series: exactly \<open>1\<close> on all-zero and
  on empty input, and the maximum of \<open>1\<close> and the absolute values when all are finite.
\<close>

theorem chart_max_floor:
  "BarChart_max series = Fin (Max (insert 1 {r. Fin r \<in> set (concat series)})) \<and>
   (\<exists>r\<ge>1. BarChart_max series = Fin r) \<and>
   ((\<forall>v \<in> set (concat series). v = Fin 0) \<longrightarrow> BarChart_max series = Fin 1) \<and>
   ((\<forall>v \<in> set (concat series). \<exists>r\<ge>0. v = Fin r) \<longrightarrow>
      BarChart_max series = spec_scaleMax series) \<and>
   LineChart_max vs = spec_scaleMax [vs] \<and>
   ((\<forall>v \<in> set vs. v = Fin 0) \<longrightarrow> LineChart_max vs = Fin 1) \<and>
   ((\<forall>v \<in> set vs. isFinite v) \<longrightarrow>
      LineChart_max vs = Fin (Max (insert 1 {\<bar>r\<bar> | r. Fin r \<in> set vs})))"
proof (intro conjI impI)
  show "BarChart_max series = Fin (Max (insert 1 {r. Fin r \<in> set (concat series)}))"
    by (simp only: BarChart_max_Max Max_real_or_zero)
  show "\<exists>r\<ge>1. BarChart_max series = Fin r"
    by (simp add: BarChart_max_Max)
  show "BarChart_max series = Fin 1" if "\<forall>v \<in> set (concat series). v = Fin 0"
  proof -
    from that have "real_or_zero ` set (concat series) \<subseteq> {0}"
      by (fastforce simp: real_or_zero_def)
    then have "real_or_zero ` set (concat series) = {} \<or>
               real_or_zero ` set (concat series) = {0}"
      by (rule subset_singletonD)
    then have "Max (insert 1 (real_or_zero ` set (concat series))) = 1"
      by (elim disjE) (simp_all only: Max_singleton Max_insert finite.intros insert_not_empty
          max_def, simp_all)
    then show ?thesis by (simp only: BarChart_max_Max)
  qed
  show "BarChart_max series = spec_scaleMax series"
    if "\<forall>v \<in> set (concat series). \<exists>r\<ge>0. v = Fin r"
    unfolding BarChart_max_def spec_scaleMax_def
    by (simp only: abs_nonneg_map [OF that])
  show "LineChart_max vs = spec_scaleMax [vs]"
    by (simp add: LineChart_max_def spec_scaleMax_def)
  show "LineChart_max vs = Fin 1" if "\<forall>v \<in> set vs. v = Fin 0"
  proof -
    from that have m0: "map Math_abs vs = map Fin (map (\<lambda>_. 0) vs)"
      by (induction vs) auto
    have "LineChart_max vs = foldl num_max (Fin 1) (map Math_abs vs)"
      by (simp add: LineChart_max_def Math_max_def)
    also have "\<dots> = foldl num_max (Fin 1) (map Fin (map (\<lambda>_. 0) vs))"
      by (simp only: m0)
    also have "\<dots> = Fin (Max (insert 1 (set (map (\<lambda>_. 0::real) vs))))"
      by (rule foldl_num_max_Fin)
    also have "Max (insert 1 (set (map (\<lambda>_. 0::real) vs))) = 1"
      by (cases vs) simp_all
    finally show ?thesis .
  qed
  show "LineChart_max vs = Fin (Max (insert 1 {\<bar>r\<bar> | r. Fin r \<in> set vs}))"
    if "\<forall>v \<in> set vs. isFinite v"
    by (rule LineChart_max_Max [OF that])
qed

theorem chart_max_floor_witness:
  "BarChart_max [[Fin 0, Fin 0], [Fin 0]] = Fin 1 \<and> LineChart_max [Fin 0, Fin 0] = Fin 1"
proof -
  have a: "\<forall>v \<in> set (concat [[Fin 0, Fin 0], [Fin 0]]). v = Fin 0" by simp
  have b: "\<forall>v \<in> set [Fin 0, Fin 0]. v = Fin 0" by simp
  from a b chart_max_floor [of "[[Fin 0, Fin 0], [Fin 0]]" "[Fin 0, Fin 0]"]
  show ?thesis by blast
qed

text \<open>
  \<open>BarChart\<close> takes no absolute value: on the one value \<open>-5\<close> its scale is \<open>1\<close>,
  where the maximum absolute value is \<open>5\<close>.
\<close>

theorem BarChart_max_abs_counterexample:
  "BarChart_max [[Fin (- 5)]] = Fin 1 \<and> spec_scaleMax [[Fin (- 5)]] = Fin 5"
  by (simp add: BarChart_max_def spec_scaleMax_def Math_max_def)

section \<open>Refused entries\<close>

lemma StringToNumber_abc: "StringToNumber ''abc'' = NaN"
  by (simp add: StringToNumber_def trimString_def isWhiteSpace_def StrDecimalLiteral_def
      StrUnsignedDecimalLiteral_def parseMantissa_def parseDigits_def digitValue_def radixOf_def)

text \<open>
  C5. An attempt with an empty date, an empty kind, an empty category, or an amount
  string that does not convert to a finite number leaves the whole state, and so the
  collection, as it was. The function is total: nothing is raised. (No value of
  \<^typ>\<open>TxType\<close> has an empty string; the test is kept as the code has it.)
\<close>

theorem addTransaction_refused:
  "date st = [] \<or> TxType_string (type st) = [] \<or> category st = [] \<or>
     \<not> isFinite (StringToNumber (amount st))
   \<Longrightarrow> addTransaction newId st = st"
  by (auto simp: addTransaction_def Let_def)

theorem addTransaction_refused_witness:
  "addTransaction ''id-1''
     \<lparr>transactions = [mkTx ''id-0'' ''2026-01-05'' Income ''Salary'' (Fin 1000)],
      date = ''2026-01-10'', type = Expenses, category = ''Rent'', amount = ''abc'',
      details = ''note''\<rparr> =
     \<lparr>transactions = [mkTx ''id-0'' ''2026-01-05'' Income ''Salary'' (Fin 1000)],
      date = ''2026-01-10'', type = Expenses, category = ''Rent'', amount = ''abc'',
      details = ''note''\<rparr>"
  using addTransaction_refused [of
     "\<lparr>transactions = [mkTx ''id-0'' ''2026-01-05'' Income ''Salary'' (Fin 1000)],
      date = ''2026-01-10'', type = Expenses, category = ''Rent'', amount = ''abc'',
      details = ''note''\<rparr>" "''id-1''"]
  by (simp add: StringToNumber_abc)

section \<open>Month statistics\<close>

lemma month_monthRow [simp]: "month (monthRow txs m) = m"
  by (simp add: monthRow_def Let_def)

lemma find_monthRow:
  "find (\<lambda>x. month x = m) (map (monthRow txs) ms) =
     (if m \<in> set ms then Some (monthRow txs m) else None)"
  by (induction ms) auto

lemma set_allMonthsInTx:
  "set (allMonthsInTx txs) = (\<lambda>t. monthKeyFromDate (tx_date t)) ` set txs"
  by (simp add: allMonthsInTx_def)

text \<open>
  C6. \<open>selectedMonthStats\<close> is a total function. When some entry falls in the month
  it is that month's row of \<open>monthTotals\<close>; otherwise it is the row of that month
  with income, expenses, savings, investments and net all \<open>0\<close>.
\<close>

theorem selectedMonthStats_total:
  "((\<exists>t \<in> set txs. monthKeyFromDate (tx_date t) = m) \<longrightarrow>
      selectedMonthStats txs m = monthRow txs m \<and> monthRow txs m \<in> set (monthTotals txs)) \<and>
   (\<not> (\<exists>t \<in> set txs. monthKeyFromDate (tx_date t) = m) \<longrightarrow>
      selectedMonthStats txs m =
        \<lparr>month = m, income = Fin 0, expenses = Fin 0, savings = Fin 0,
         investments = Fin 0, net = Fin 0\<rparr>)"
  by (auto simp: selectedMonthStats_def monthTotals_def find_monthRow set_allMonthsInTx)

theorem selectedMonthStats_total_witness:
  "selectedMonthStats sampleEntries ''2026-01'' =
     \<lparr>month = ''2026-01'', income = Fin 1000, expenses = Fin 400, savings = Fin 0,
      investments = Fin 0, net = Fin 600\<rparr> \<and>
   selectedMonthStats sampleEntries ''2099-01'' =
     \<lparr>month = ''2099-01'', income = Fin 0, expenses = Fin 0, savings = Fin 0,
      investments = Fin 0, net = Fin 0\<rparr>"
proof -
  have a: "\<exists>t \<in> set sampleEntries. monthKeyFromDate (tx_date t) = ''2026-01''"
    by (simp add: sampleEntries_def monthKeyFromDate_def)
  have b: "\<not> (\<exists>t \<in> set sampleEntries. monthKeyFromDate (tx_date t) = ''2099-01'')"
    by (simp add: sampleEntries_def monthKeyFromDate_def)
  from a b selectedMonthStats_total [of sampleEntries "''2026-01''"]
    selectedMonthStats_total [of sampleEntries "''2099-01''"]
  show ?thesis by (simp add: monthRow_sample)
qed

section \<open>Round trip of export and import\<close>

lemma serialize_toObject: "SerializeJSONProperty (toObject t) = Some (txTokens t)"
  by (cases "tx_details t") (simp_all add: toObject_def txTokens_def amountToken_def)

lemma serialize_transactions:
  "SerializeJSONArray (map toObject txs) = map txTokens txs"
  by (induction txs) (simp_all add: serialize_toObject)

lemma parse_txTokens:
  "parseValue (Suc (Suc (Suc (Suc (Suc (Suc (Suc (Suc n)))))))) (txTokens t @ rest) =
     Some (readBack t, rest)"
  by (cases "tx_details t"; cases "tx_amount t")
     (simp_all add: txTokens_def readBack_def amountToken_def)

lemma parse_txTokens_fuel:
  assumes "8 \<le> n"
  shows "parseValue n (txTokens t @ rest) = Some (readBack t, rest)"
proof -
  from assms obtain k where "n = 8 + k" using le_Suc_ex by blast
  then have "n = Suc (Suc (Suc (Suc (Suc (Suc (Suc (Suc k)))))))" by simp
  then show ?thesis by (simp only: parse_txTokens)
qed

lemma separate_Cons:
  "xs \<noteq> [] \<Longrightarrow> separate (x # xs) = x @ Comma # separate xs"
  by (cases xs) simp_all

lemma parse_elements_transactions:
  "txs \<noteq> [] \<Longrightarrow> length txs + 8 \<le> n \<Longrightarrow>
   parseElements n (separate (map txTokens txs) @ RBracket # rest) =
     Some (map readBack txs, rest)"
proof (induction txs arbitrary: n)
  case Nil
  then show ?case by simp
next
  case (Cons t txs)
  from Cons.prems obtain k where n: "n = Suc k" and k: "length txs + 8 \<le> k"
    by (cases n) auto
  then have k8: "8 \<le> k" by simp
  show ?case
  proof (cases "txs = []")
    case True
    then show ?thesis
      by (simp add: n parse_txTokens_fuel [OF k8])
  next
    case False
    with k have "parseElements k (separate (map txTokens txs) @ RBracket # rest) =
      Some (map readBack txs, rest)"
      by (intro Cons.IH) simp_all
    with False show ?thesis
      by (simp add: n separate_Cons parse_txTokens_fuel [OF k8])
  qed
qed

lemma txTokens_starts: "\<exists>ts. txTokens t = LBrace # ts"
  by (simp add: txTokens_def)

lemma length_txTokens: "8 \<le> length (txTokens t)"
  by (simp add: txTokens_def)

lemma length_separate: "8 * length txs \<le> length (separate (map txTokens txs))"
proof (induction txs)
  case Nil
  then show ?case by simp
next
  case (Cons t txs)
  with length_txTokens [of t] show ?case
    by (cases "txs = []") (simp_all add: separate_Cons)
qed

lemma separate_starts:
  "txs \<noteq> [] \<Longrightarrow> \<exists>ts. separate (map txTokens txs) = LBrace # ts"
proof (cases txs)
  case Nil
  then show "txs \<noteq> [] \<Longrightarrow> ?thesis" by simp
next
  case (Cons t txs')
  obtain ts where "txTokens t = LBrace # ts" using txTokens_starts by blast
  with Cons show ?thesis by (cases "txs' = []") (simp_all add: separate_Cons)
qed

lemma download_transactions:
  "downloadJSON (transactionsValue txs) =
     Some (LBracket # separate (map txTokens txs) @ [RBracket])"
  by (simp add: downloadJSON_def JSON_stringify_def transactionsValue_def serialize_transactions)

lemma parse_exported:
  "JSON_parse (LBracket # separate (map txTokens txs) @ [RBracket]) =
     Some (JArray (map readBack txs))"
proof (cases "txs = []")
  case True
  then show ?thesis by (simp add: JSON_parse_def numeral_eq_Suc)
next
  case False
  let ?body = "separate (map txTokens txs)"
  let ?n = "2 * length (LBracket # ?body @ [RBracket])"
  from False obtain ts where st: "?body = LBrace # ts" using separate_starts by blast
  from False have "1 \<le> length txs" by (cases txs) simp_all
  with length_separate [of txs] have "length txs + 8 \<le> ?n" by simp
  from parse_elements_transactions [OF False this, of "[]"]
  have pe: "parseElements ?n (?body @ [RBracket]) = Some (map readBack txs, [])" .
  have "parseValue (Suc ?n) (LBracket # ?body @ [RBracket]) =
        (case parseElements ?n (?body @ [RBracket]) of
           None \<Rightarrow> None | Some (vs, rest) \<Rightarrow> Some (JArray vs, rest))"
    by (simp add: st)
  with pe have "parseValue (Suc ?n) (LBracket # ?body @ [RBracket]) =
        Some (JArray (map readBack txs), [])"
    by simp
  then show ?thesis
    unfolding JSON_parse_def by (simp only: Suc_eq_plus1 [symmetric]) simp
qed

lemma import_exported:
  "exportThenImport txs = Some (JArray (map readBack txs))"
  by (simp add: exportThenImport_def download_transactions importFile_def safeParseJSON_def
      parse_exported)

lemma TxType_of_string_inverse [simp]: "TxType_of_string (TxType_string k) = Some k"
  by (cases k) (simp_all add: TxType_of_string_def)

lemma asTransaction_readBack:
  "finiteDouble (tx_amount t) \<Longrightarrow> asTransaction (readBack t) = Some t"
  by (cases "tx_details t"; cases "tx_amount t")
     (simp_all add: asTransaction_def readBack_def stringProperty_def finiteDouble_def
        overflow_def)

lemma those_asTransaction:
  "\<forall>t \<in> set txs. finiteDouble (tx_amount t) \<Longrightarrow>
   those (map asTransaction (map readBack txs)) = Some txs"
  by (induction txs) (simp_all add: asTransaction_readBack)

text \<open>
  The bound of \<open>JSON_parse\<close> is never the cause of a failure: a call that succeeds
  reads at least one token, and from twice the number of tokens on a greater bound
  changes nothing.
\<close>

lemma parse_consumes:
  "(parseValue n ts = Some (v, rest) \<longrightarrow> length rest < length ts) \<and>
   (parseElements n ts = Some (vs, rest) \<longrightarrow> length rest < length ts) \<and>
   (parseMembers n ts = Some (ms, rest) \<longrightarrow> length rest < length ts)"
proof (induction n arbitrary: ts v vs ms rest)
  case 0
  then show ?case by simp
next
  case (Suc n)
  have IHV: "\<And>ts v rest. parseValue n ts = Some (v, rest) \<Longrightarrow> length rest < length ts"
    and IHE: "\<And>ts vs rest. parseElements n ts = Some (vs, rest) \<Longrightarrow> length rest < length ts"
    and IHM: "\<And>ts ms rest. parseMembers n ts = Some (ms, rest) \<Longrightarrow> length rest < length ts"
    using Suc.IH by blast+
  have V: "length rest < length ts" if p: "parseValue (Suc n) ts = Some (v, rest)"
  proof (cases ts)
    case Nil
    with p show ?thesis by simp
  next
    case (Cons t ts')
    show ?thesis
    proof (cases t)
      case LBracket
      with p Cons show ?thesis
        by (auto split: list.splits token.splits option.splits prod.splits dest: IHE)
    next
      case LBrace
      with p Cons show ?thesis
        by (auto split: list.splits token.splits option.splits prod.splits dest: IHM)
    qed (use p Cons in auto)
  qed
  have E: "length rest < length ts" if p: "parseElements (Suc n) ts = Some (vs, rest)"
  proof -
    from p obtain v r where v: "parseValue n ts = Some (v, r)"
      by (auto split: option.splits)
    then have l: "length r < length ts" by (rule IHV)
    from p v l show ?thesis
      by (auto split: list.splits token.splits option.splits prod.splits dest: IHE)
  qed
  have M: "length rest < length ts" if p: "parseMembers (Suc n) ts = Some (ms, rest)"
  proof -
    from p obtain k ts' where ts: "ts = StringTok k # Colon # ts'"
      by (auto split: list.splits token.splits)
    with p obtain v r where v: "parseValue n ts' = Some (v, r)"
      by (auto split: option.splits)
    then have l: "length r < length ts'" by (rule IHV)
    from p ts v l show ?thesis
      by (auto split: list.splits token.splits option.splits prod.splits dest: IHM)
  qed
  from V E M show ?case by blast
qed

lemma parseValue_consumes: "parseValue n ts = Some (v, rest) \<Longrightarrow> length rest < length ts"
  using parse_consumes by blast

lemma parse_bound_step:
  "(2 * length ts < n \<longrightarrow> parseValue (Suc n) ts = parseValue n ts) \<and>
   (2 * length ts + 1 < n \<longrightarrow> parseElements (Suc n) ts = parseElements n ts) \<and>
   (2 * length ts + 1 < n \<longrightarrow> parseMembers (Suc n) ts = parseMembers n ts)"
proof (induction n arbitrary: ts)
  case 0
  then show ?case by simp
next
  case (Suc m)
  have IHV: "\<And>ts. 2 * length ts < m \<Longrightarrow> parseValue (Suc m) ts = parseValue m ts"
    and IHE: "\<And>ts. 2 * length ts + 1 < m \<Longrightarrow> parseElements (Suc m) ts = parseElements m ts"
    and IHM: "\<And>ts. 2 * length ts + 1 < m \<Longrightarrow> parseMembers (Suc m) ts = parseMembers m ts"
    using Suc.IH by blast+
  have V: "parseValue (Suc (Suc m)) ts = parseValue (Suc m) ts" if b: "2 * length ts < Suc m"
  proof (cases ts)
    case Nil
    then show ?thesis by simp
  next
    case (Cons t ts')
    with b have "2 * length ts' + 1 < m" by simp
    then have "parseElements (Suc m) ts' = parseElements m ts'"
      and "parseMembers (Suc m) ts' = parseMembers m ts'"
      by (rule IHE, rule IHM)
    with Cons show ?thesis
      by (cases t)
        (simp_all del: parseElements.simps parseMembers.simps
           cong del: list.case_cong_weak token.case_cong_weak)
  qed
  have E: "parseElements (Suc (Suc m)) ts = parseElements (Suc m) ts"
    if b: "2 * length ts + 1 < Suc m"
  proof -
    from b have v: "parseValue (Suc m) ts = parseValue m ts" by (intro IHV) simp
    show ?thesis
    proof (cases "parseValue m ts")
      case None
      with v show ?thesis by simp
    next
      case (Some p)
      obtain x rest where p: "p = (x, rest)" by (cases p)
      with Some have "parseValue m ts = Some (x, rest)" by simp
      then have l: "length rest < length ts" by (rule parseValue_consumes)
      have "parseElements (Suc m) rest' = parseElements m rest'" if "rest = Comma # rest'" for rest'
        using that l b by (intro IHE) simp
      with v Some p show ?thesis
        by (simp del: parseValue.simps split: list.splits token.splits)
    qed
  qed
  have M: "parseMembers (Suc (Suc m)) ts = parseMembers (Suc m) ts"
    if b: "2 * length ts + 1 < Suc m"
  proof -
    have "parseMembers (Suc (Suc m)) (StringTok k # Colon # ts') =
          parseMembers (Suc m) (StringTok k # Colon # ts')"
      if ts: "ts = StringTok k # Colon # ts'" for k ts'
    proof -
      from b ts have v: "parseValue (Suc m) ts' = parseValue m ts'" by (intro IHV) simp
      show ?thesis
      proof (cases "parseValue m ts'")
        case None
        with v show ?thesis by simp
      next
        case (Some p)
        obtain x rest where p: "p = (x, rest)" by (cases p)
        with Some have "parseValue m ts' = Some (x, rest)" by simp
        then have l: "length rest < length ts'" by (rule parseValue_consumes)
        have "parseMembers (Suc m) rest' = parseMembers m rest'" if "rest = Comma # rest'" for rest'
          using that l b ts by (intro IHM) simp
        with v Some p show ?thesis
          by (simp del: parseValue.simps split: list.splits token.splits)
      qed
    qed
    then show ?thesis
      by (cases ts) (auto simp del: parseValue.simps split: list.splits token.splits)
  qed
  from V E M show ?case by blast
qed

lemma parse_bound_enough:
  "2 * length ts + 1 \<le> n \<Longrightarrow> parseValue n ts = parseValue (2 * length ts + 1) ts"
proof (induction n)
  case 0
  then show ?case by simp
next
  case (Suc n)
  show ?case
  proof (cases "2 * length ts + 1 \<le> n")
    case True
    then have "2 * length ts < n" by simp
    with parse_bound_step [of ts n] have "parseValue (Suc n) ts = parseValue n ts" by blast
    with Suc.IH [OF True] show ?thesis by simp
  next
    case False
    with Suc.prems have "Suc n = 2 * length ts + 1" by simp
    then show ?thesis by simp
  qed
qed

text \<open>
  An infinite amount enters the collection through import: a file whose one entry has
  the amount \<^verbatim>\<open>1e999\<close> is read as an entry of amount \<open>Infinity\<close>.
\<close>

lemma import_huge_amount:
  "asTransactions
     (importFile
        [LBracket, LBrace,
         StringTok ''id'', Colon, StringTok ''id-1'', Comma,
         StringTok ''date'', Colon, StringTok ''2026-01-05'', Comma,
         StringTok ''type'', Colon, StringTok ''Income'', Comma,
         StringTok ''category'', Colon, StringTok ''Salary'', Comma,
         StringTok ''amount'', Colon, NumberTok (10 ^ 999),
         RBrace, RBracket]) =
   Some [mkTx ''id-1'' ''2026-01-05'' Income ''Salary'' PosInf]"
proof -
  define b :: real where "b = 10 ^ 999"
  have o: "overflow b = PosInf" unfolding b_def by (rule overflow_1e999)
  show ?thesis
    unfolding b_def [symmetric]
    by (simp add: importFile_def safeParseJSON_def JSON_parse_def numeral_eq_Suc o
        asTransactions_def asTransaction_def stringProperty_def TxType_of_string_def mkTx_def)
qed

text \<open>
  C7, as the code has it. For a collection whose amounts are all finite, exporting it
  and importing the exported file gives a collection equal by value to the original.
\<close>

theorem export_import_round_trip:
  assumes "\<forall>t \<in> set txs. finiteDouble (tx_amount t)"
  shows "Option.bind (exportThenImport txs) asTransactions = Some txs"
  using those_asTransaction [OF assms]
  by (simp add: import_exported asTransactions_def)

theorem export_import_round_trip_witness:
  "Option.bind (exportThenImport sampleEntries) asTransactions = Some sampleEntries"
proof -
  have "(1000::real) < DBL_LIMIT" "(400::real) < DBL_LIMIT"
    using DBL_LIMIT_big by simp_all
  then have "\<forall>t \<in> set sampleEntries. finiteDouble (tx_amount t)"
    by (simp add: sampleEntries_def finiteDouble_def)
  then show ?thesis by (rule export_import_round_trip)
qed

text \<open>
  An infinite amount does not survive: it is exported as \<^verbatim>\<open>null\<close>, and the imported
  object has \<^verbatim>\<open>amount: null\<close>.
\<close>

theorem export_import_infinite_counterexample:
  "exportThenImport [mkTx ''id-1'' ''2026-01-05'' Income ''Salary'' PosInf] =
     Some (JArray [JObject [(''id'', JString ''id-1''), (''date'', JString ''2026-01-05''),
                            (''type'', JString ''Income''), (''category'', JString ''Salary''),
                            (''amount'', JNull)]]) \<and>
   Option.bind (exportThenImport [mkTx ''id-1'' ''2026-01-05'' Income ''Salary'' PosInf])
     asTransactions = None"
  by (simp add: import_exported readBack_def mkTx_def asTransactions_def asTransaction_def
      stringProperty_def TxType_of_string_def)

section \<open>Order of the entries\<close>

lemma is_integer_Fin: "is_integer v \<Longrightarrow> v = Fin (real_or_zero v)"
  by (cases v) (simp_all add: is_integer_def real_or_zero_def)

lemma foldl_exact:
  "\<forall>t \<in> set xs. is_integer (tx_amount t) \<Longrightarrow> \<bar>a\<bar> + abs_total xs \<le> 2 ^ 53 \<Longrightarrow>
   foldl (\<lambda>acc t. num_add acc (or_zero (tx_amount t))) (Fin a) xs =
     Fin (a + (\<Sum>t\<leftarrow>xs. real_or_zero (tx_amount t)))"
proof (induction xs arbitrary: a)
  case Nil
  then show ?case by simp
next
  case (Cons t xs)
  define r where "r = real_or_zero (tx_amount t)"
  from Cons.prems(1) have t: "tx_amount t = Fin r"
    unfolding r_def by (simp add: is_integer_Fin)
  from Cons.prems(2) have b: "\<bar>a\<bar> + \<bar>r\<bar> + abs_total xs \<le> 2 ^ 53"
    by (simp add: abs_total_def r_def)
  have nn: "0 \<le> abs_total xs"
    unfolding abs_total_def by (rule sum_list_nonneg) auto
  from b nn have small: "\<bar>a + r\<bar> \<le> 2 ^ 53" by linarith
  from b have b': "\<bar>a + r\<bar> + abs_total xs \<le> 2 ^ 53" by linarith
  have "foldl (\<lambda>acc t. num_add acc (or_zero (tx_amount t))) (Fin a) (t # xs) =
        foldl (\<lambda>acc t. num_add acc (or_zero (tx_amount t))) (Fin (a + r)) xs"
    by (simp add: t or_zero_Fin overflow_small [OF small])
  also from Cons.prems(1) have "\<dots> = Fin (a + r + (\<Sum>t\<leftarrow>xs. real_or_zero (tx_amount t)))"
    by (intro Cons.IH b') simp
  finally show ?case by (simp add: r_def add.assoc)
qed

lemma abs_total_filter: "abs_total (filter P xs) \<le> abs_total xs"
proof (induction xs)
  case Nil
  then show ?case by (simp add: abs_total_def)
next
  case (Cons t xs)
  have "0 \<le> \<bar>real_or_zero (tx_amount t)\<bar>" by simp
  with Cons show ?case unfolding abs_total_def by (cases "P t") auto
qed

lemma sum_filter_exact:
  assumes "\<forall>t \<in> set xs. is_integer (tx_amount t)" and "abs_total xs \<le> 2 ^ 53"
  shows "foldl (\<lambda>acc t. num_add acc (or_zero (tx_amount t))) (Fin 0) (filter P xs) =
     Fin (\<Sum>t\<leftarrow>filter P xs. real_or_zero (tx_amount t))"
proof -
  from assms(1) have i: "\<forall>t \<in> set (filter P xs). is_integer (tx_amount t)" by simp
  from abs_total_filter [of P xs] assms(2)
  have "\<bar>0::real\<bar> + abs_total (filter P xs) \<le> 2 ^ 53" by simp
  from foldl_exact [OF i this] show ?thesis by simp
qed

lemma sum_list_filter_mset:
  "mset xs = mset ys \<Longrightarrow>
   (\<Sum>t\<leftarrow>filter P xs. (f t :: real)) = (\<Sum>t\<leftarrow>filter P ys. f t)"
proof -
  assume e: "mset xs = mset ys"
  have "\<And>zs. (\<Sum>t\<leftarrow>filter P zs. f t) = sum_mset (image_mset f (filter_mset P (mset zs)))"
    by (simp only: mset_filter [symmetric] mset_map [symmetric] sum_mset_sum_list)
  with e show ?thesis by simp
qed

lemma abs_total_mset: "mset xs = mset ys \<Longrightarrow> abs_total xs = abs_total ys"
  using sum_list_filter_mset [of xs ys "\<lambda>t. \<bar>real_or_zero (tx_amount t)\<bar>" "\<lambda>_. True"]
  by (simp add: abs_total_def)

lemma filtered_sum_perm:
  assumes p: "mset xs = mset ys"
    and i: "\<forall>t \<in> set xs. is_integer (tx_amount t)" and b: "abs_total xs \<le> 2 ^ 53"
  shows "foldl (\<lambda>acc t. num_add acc (or_zero (tx_amount t))) (Fin 0) (filter P xs) =
         foldl (\<lambda>acc t. num_add acc (or_zero (tx_amount t))) (Fin 0) (filter P ys)"
proof -
  from p have s: "set xs = set ys" by (rule mset_eq_setD)
  from i s have i': "\<forall>t \<in> set ys. is_integer (tx_amount t)" by simp
  from b abs_total_mset [OF p] have b': "abs_total ys \<le> 2 ^ 53" by simp
  show ?thesis
    by (simp only: sum_filter_exact [OF i b] sum_filter_exact [OF i' b']
        sum_list_filter_mset [OF p])
qed

text \<open>
  C8, as the code has it. For entries with integer amounts whose absolute values add up
  to at most \<open>2^53\<close> (where the additions of doubles are exact), every permutation
  of the entries gives the same \<open>sumByType\<close>, the same
  \<open>sumForMonthTypeCategory\<close> and the same \<open>monthTrackedTotal\<close>.
\<close>

theorem sums_order_independent:
  assumes "mset entries = mset entries'"
    and "\<forall>t \<in> set entries. is_integer (tx_amount t)"
    and "abs_total entries \<le> 2 ^ 53"
  shows "sumByType entries k = sumByType entries' k \<and>
         sumForMonthTypeCategory entries m k c = sumForMonthTypeCategory entries' m k c \<and>
         monthTrackedTotal entries m k = monthTrackedTotal entries' m k"
proof -
  have a: "sumByType entries k = sumByType entries' k"
    unfolding sumByType_def by (rule filtered_sum_perm [OF assms])
  have b: "\<And>c. sumForMonthTypeCategory entries m k c = sumForMonthTypeCategory entries' m k c"
    unfolding sumForMonthTypeCategory_def by (rule filtered_sum_perm [OF assms])
  have "monthTrackedTotal entries m k = monthTrackedTotal entries' m k"
    unfolding monthTrackedTotal_def by (simp only: b)
  with a b show ?thesis by blast
qed

theorem sums_order_independent_witness:
  "sumByType [mkTx ''a'' ''2026-01-05'' Income ''Salary'' (Fin 1000),
              mkTx ''b'' ''2026-01-10'' Expenses ''Rent'' (Fin 400),
              mkTx ''c'' ''2026-01-12'' Income ''Side hustle'' (Fin (- 50))] Income =
   sumByType [mkTx ''c'' ''2026-01-12'' Income ''Side hustle'' (Fin (- 50)),
              mkTx ''a'' ''2026-01-05'' Income ''Salary'' (Fin 1000),
              mkTx ''b'' ''2026-01-10'' Expenses ''Rent'' (Fin 400)] Income"
proof -
  let ?xs = "[mkTx ''a'' ''2026-01-05'' Income ''Salary'' (Fin 1000),
              mkTx ''b'' ''2026-01-10'' Expenses ''Rent'' (Fin 400),
              mkTx ''c'' ''2026-01-12'' Income ''Side hustle'' (Fin (- 50))]"
  let ?ys = "[mkTx ''c'' ''2026-01-12'' Income ''Side hustle'' (Fin (- 50)),
              mkTx ''a'' ''2026-01-05'' Income ''Salary'' (Fin 1000),
              mkTx ''b'' ''2026-01-10'' Expenses ''Rent'' (Fin 400)]"
  have p: "mset ?xs = mset ?ys" by simp
  have i: "\<forall>t \<in> set ?xs. is_integer (tx_amount t)" by (simp add: is_integer_def)
  have b: "abs_total ?xs \<le> 2 ^ 53" by (simp add: abs_total_def real_or_zero_def)
  from sums_order_independent [OF p i b, of Income]
  show ?thesis by (rule conjunct1)
qed

text \<open>
  Without the bound the order matters. With the amounts \<open>2^1023\<close>, \<open>2^1023\<close>,
  \<open>-2^1023\<close> the running sum overflows to \<open>Infinity\<close> and stays there; with
  \<open>2^1023\<close>, \<open>-2^1023\<close>, \<open>2^1023\<close> the sum is \<open>2^1023\<close>.
\<close>

theorem sums_order_overflow_counterexample:
  "mset [mkTx ''a'' ''2026-01-05'' Income ''Salary'' (Fin (2 ^ 1023)),
         mkTx ''b'' ''2026-01-06'' Income ''Salary'' (Fin (2 ^ 1023)),
         mkTx ''c'' ''2026-01-07'' Income ''Salary'' (Fin (- (2 ^ 1023)))] =
   mset [mkTx ''a'' ''2026-01-05'' Income ''Salary'' (Fin (2 ^ 1023)),
         mkTx ''c'' ''2026-01-07'' Income ''Salary'' (Fin (- (2 ^ 1023))),
         mkTx ''b'' ''2026-01-06'' Income ''Salary'' (Fin (2 ^ 1023))] \<and>
   sumByType [mkTx ''a'' ''2026-01-05'' Income ''Salary'' (Fin (2 ^ 1023)),
         mkTx ''b'' ''2026-01-06'' Income ''Salary'' (Fin (2 ^ 1023)),
         mkTx ''c'' ''2026-01-07'' Income ''Salary'' (Fin (- (2 ^ 1023)))] Income = PosInf \<and>
   sumByType [mkTx ''a'' ''2026-01-05'' Income ''Salary'' (Fin (2 ^ 1023)),
         mkTx ''c'' ''2026-01-07'' Income ''Salary'' (Fin (- (2 ^ 1023))),
         mkTx ''b'' ''2026-01-06'' Income ''Salary'' (Fin (2 ^ 1023))] Income = Fin (2 ^ 1023)"
proof -
  define a :: real where "a = 2 ^ 1023"
  have a: "a < DBL_LIMIT" "DBL_LIMIT \<le> a + a" "0 < a"
    using pow1023_facts by (simp_all only: a_def)
  then have o: "overflow a = Fin a" "overflow (a + a) = PosInf" "overflow (2 * a) = PosInf"
    "overflow 0 = Fin 0" "a \<noteq> 0"
    by (simp_all add: overflow_def)
  have m: "\<And>x y z :: Transaction. mset [x, y, z] = mset [x, z, y]" by simp
  show ?thesis
    unfolding a_def [symmetric]
    by (intro conjI, rule m) (simp_all add: sumByType_def or_zero_def o)
qed

section \<open>Budget edits\<close>

lemma setBudget_stores_finite:
  "\<exists>r. setBudget prev m t c v (budgetKey m t c) = Some (Fin r)"
  by (cases v) (simp_all add: setBudget_def)

lemma setBudget_keeps_finite:
  assumes "\<forall>k x. prev k = Some x \<longrightarrow> isFinite x"
  shows "\<forall>k x. setBudget prev m t c v k = Some x \<longrightarrow> isFinite x"
  using assms by (auto simp: setBudget_def)

lemma applyEdits_keeps_finite:
  assumes "\<forall>k x. prev k = Some x \<longrightarrow> isFinite x"
  shows "\<forall>k x. applyEdits prev edits k = Some x \<longrightarrow> isFinite x"
  using assms
proof (induction prev edits rule: applyEdits.induct)
  case (1 budgets)
  then show ?case by simp
next
  case (2 budgets monthKey t cat v edits)
  from setBudget_keeps_finite [OF "2.prems"]
  have "\<forall>k x. setBudget budgets monthKey t cat v k = Some x \<longrightarrow> isFinite x" .
  from "2.IH" [OF this] show ?case by simp
qed

lemma getBudget_finite:
  assumes "\<forall>k x. budgets k = Some x \<longrightarrow> isFinite x"
  shows "isFinite (getBudget budgets m t c)"
  using assms by (auto simp: getBudget_def split: option.splits)

lemma monthBudgetTotal_not_NaN:
  assumes "\<forall>k x. budgets k = Some x \<longrightarrow> isFinite x"
  shows "monthBudgetTotal budgets m t \<noteq> NaN"
  unfolding monthBudgetTotal_def
  by (rule foldl_num_add_not_NaN) (simp_all add: getBudget_finite [OF assms])

text \<open>
  C9, as the code has it. \<open>setBudget\<close> writes the value under its key, \<open>0\<close> in
  place of a value that is not finite, and leaves every other key as it was: what it
  writes is finite. When the entries of the map are finite before a sequence of edits
  they are finite after it, and then \<open>monthBudgetTotal\<close> is never NaN.
\<close>

theorem budget_edits_finite:
  "setBudget prev m t c v (budgetKey m t c) = Some (if isFinite v then v else Fin 0) \<and>
   (\<forall>k. k \<noteq> budgetKey m t c \<longrightarrow> setBudget prev m t c v k = prev k) \<and>
   (\<exists>r. setBudget prev m t c v (budgetKey m t c) = Some (Fin r)) \<and>
   ((\<forall>k x. prev k = Some x \<longrightarrow> isFinite x) \<longrightarrow>
      (\<forall>k x. applyEdits prev edits k = Some x \<longrightarrow> isFinite x) \<and>
      monthBudgetTotal (applyEdits prev edits) m' t' \<noteq> NaN)"
proof (intro conjI impI allI)
  show "setBudget prev m t c v (budgetKey m t c) = Some (if isFinite v then v else Fin 0)"
    by (simp add: setBudget_def)
  show "setBudget prev m t c v k = prev k" if "k \<noteq> budgetKey m t c" for k
    using that by (simp add: setBudget_def)
  show "\<exists>r. setBudget prev m t c v (budgetKey m t c) = Some (Fin r)"
    by (rule setBudget_stores_finite)
  assume fin: "\<forall>k x. prev k = Some x \<longrightarrow> isFinite x"
  have all: "\<forall>k x. applyEdits prev edits k = Some x \<longrightarrow> isFinite x"
    by (rule applyEdits_keeps_finite [OF fin])
  then show "applyEdits prev edits k = Some x \<Longrightarrow> isFinite x" for k x
    by blast
  show "monthBudgetTotal (applyEdits prev edits) m' t' \<noteq> NaN"
    by (rule monthBudgetTotal_not_NaN [OF all])
qed

theorem budget_edits_finite_witness:
  "setBudget Map.empty ''2026-01'' Expenses ''Rent'' PosInf ''2026-01|Expenses|Rent'' = Some (Fin 0) \<and>
   monthBudgetTotal
     (applyEdits Map.empty
        [(''2026-01'', Expenses, ''Rent'', Fin 500), (''2026-01'', Expenses, ''Transport'', NaN)])
     ''2026-01'' Expenses \<noteq> NaN"
proof -
  have e: "\<forall>k x. (Map.empty :: BudgetStore) k = Some x \<longrightarrow> isFinite x" by simp
  have "monthBudgetTotal
     (applyEdits Map.empty
        [(''2026-01'', Expenses, ''Rent'', Fin 500), (''2026-01'', Expenses, ''Transport'', NaN)])
     ''2026-01'' Expenses \<noteq> NaN"
    by (rule budget_edits_finite [THEN conjunct2, THEN conjunct2, THEN conjunct2, THEN mp, OF e,
          THEN conjunct2])
  moreover have
    "setBudget Map.empty ''2026-01'' Expenses ''Rent'' PosInf ''2026-01|Expenses|Rent'' = Some (Fin 0)"
    using budget_edits_finite [of Map.empty "''2026-01''" Expenses "''Rent''" PosInf, THEN conjunct1]
    by (simp add: budgetKey_def)
  ultimately show ?thesis by (rule conjI [rotated])
qed

text \<open>
  \<open>monthBudgetTotal\<close> can still be infinite: two edits store the finite value
  \<open>2^1023\<close> for two categories of one kind, and their sum overflows.
\<close>

theorem monthBudgetTotal_overflow_counterexample:
  "applyEdits Map.empty
     [(''2026-01'', Expenses, ''Rent'', Fin (2 ^ 1023)),
      (''2026-01'', Expenses, ''Transport'', Fin (2 ^ 1023))] ''2026-01|Expenses|Rent'' =
     Some (Fin (2 ^ 1023)) \<and>
   applyEdits Map.empty
     [(''2026-01'', Expenses, ''Rent'', Fin (2 ^ 1023)),
      (''2026-01'', Expenses, ''Transport'', Fin (2 ^ 1023))] ''2026-01|Expenses|Transport'' =
     Some (Fin (2 ^ 1023)) \<and>
   monthBudgetTotal
     (applyEdits Map.empty
        [(''2026-01'', Expenses, ''Rent'', Fin (2 ^ 1023)),
         (''2026-01'', Expenses, ''Transport'', Fin (2 ^ 1023))])
     ''2026-01'' Expenses = PosInf"
proof -
  define a :: real where "a = 2 ^ 1023"
  have a: "a < DBL_LIMIT" "DBL_LIMIT \<le> a + a" "0 < a"
    using pow1023_facts by (simp_all only: a_def)
  then have o: "overflow a = Fin a" "overflow (a + a) = PosInf" "overflow (2 * a) = PosInf"
    by (simp_all add: overflow_def)
  show ?thesis
    unfolding a_def [symmetric]
    by (simp add: monthBudgetTotal_def getBudget_def setBudget_def budgetKey_def o)
qed

section \<open>Entries of amount zero\<close>

lemma StringToNumber_empty: "StringToNumber [] = Fin 0"
  by (simp add: StringToNumber_def trimString_def)

text \<open>
  C10. With the amount field empty and a date and a category given, the attempt is
  accepted: the empty string converts to \<open>0\<close>, and an entry of amount \<open>0\<close> is added
  to the collection (at its front).
\<close>

theorem addTransaction_empty_amount:
  "amount st = [] \<Longrightarrow> date st \<noteq> [] \<Longrightarrow> category st \<noteq> [] \<Longrightarrow>
   transactions (addTransaction newId st) =
     \<lparr>tx_id = newId, tx_date = date st, tx_type = type st, tx_category = category st,
      tx_amount = Fin 0,
      tx_details = (if trimString (details st) \<noteq> [] then Some (trimString (details st)) else None)\<rparr>
     # transactions st"
  by (cases "type st") (simp_all add: addTransaction_def Let_def StringToNumber_empty)

theorem addTransaction_empty_amount_witness:
  "transactions (addTransaction ''id-1''
     \<lparr>transactions = [mkTx ''id-0'' ''2026-01-05'' Income ''Salary'' (Fin 1000)],
      date = ''2026-01-10'', type = Expenses, category = ''Rent'', amount = [],
      details = []\<rparr>) =
   [mkTx ''id-1'' ''2026-01-10'' Expenses ''Rent'' (Fin 0),
    mkTx ''id-0'' ''2026-01-05'' Income ''Salary'' (Fin 1000)]"
  using addTransaction_empty_amount [of
     "\<lparr>transactions = [mkTx ''id-0'' ''2026-01-05'' Income ''Salary'' (Fin 1000)],
      date = ''2026-01-10'', type = Expenses, category = ''Rent'', amount = [],
      details = []\<rparr>" "''id-1''"]
  by (simp add: mkTx_def trimString_def)

end
